theory Spec2Isabelle
  imports Complex_Main
begin

section \<open>Shared statistics\<close>

text \<open>
  The module keeps four global counters, all starting at zero, and every worker of a run
  puts its result tuple on one queue. Python integers are unbounded, so the counters are
  \<open>int\<close>. A result is the tuple
  \<open>(client_id, sent, received, failed_connection, failed_send)\<close> as the workers build it.
\<close>

type_synonym worker_result = "int \<times> int \<times> int \<times> int \<times> int"

record shared =
  total_sent :: int
  total_received :: int
  failed_connections :: int
  failed_sends :: int
  result_queue :: "worker_result list"

definition initial_state :: shared where
  "initial_state =
     \<lparr>total_sent = 0, total_received = 0, failed_connections = 0, failed_sends = 0,
      result_queue = []\<rparr>"

text \<open>
  \<open>update_stats\<close> runs its four additions inside \<open>with stats_lock\<close>: the body is one
  critical section, so a call is one step on the shared state.
\<close>

definition update_stats :: "int \<Rightarrow> int \<Rightarrow> int \<Rightarrow> int \<Rightarrow> shared \<Rightarrow> shared" where
  "update_stats sent received failed_conn failed_send g =
     g\<lparr>total_sent := total_sent g + sent,
       total_received := total_received g + received,
       failed_connections := failed_connections g + failed_conn,
       failed_sends := failed_sends g + failed_send\<rparr>"

text \<open>
  A call of \<open>update_stats\<close> is described by its four arguments; the lock orders the calls
  of all threads into one sequence, applied from left to right.
\<close>

type_synonym stats_call = "int \<times> int \<times> int \<times> int"

definition call_sent :: "stats_call \<Rightarrow> int" where
  "call_sent c = (case c of (a, b, x, y) \<Rightarrow> a)"

definition call_received :: "stats_call \<Rightarrow> int" where
  "call_received c = (case c of (a, b, x, y) \<Rightarrow> b)"

definition call_failed_conn :: "stats_call \<Rightarrow> int" where
  "call_failed_conn c = (case c of (a, b, x, y) \<Rightarrow> x)"

definition call_failed_send :: "stats_call \<Rightarrow> int" where
  "call_failed_send c = (case c of (a, b, x, y) \<Rightarrow> y)"

definition apply_call :: "stats_call \<Rightarrow> shared \<Rightarrow> shared" where
  "apply_call c g = (case c of (a, b, x, y) \<Rightarrow> update_stats a b x y g)"

definition apply_calls :: "stats_call list \<Rightarrow> shared \<Rightarrow> shared" where
  "apply_calls cs g = fold apply_call cs g"

section \<open>Workers\<close>

text \<open>
  A worker is a thread: what the rest of the program can see of it is the sequence of
  things it does to the socket, to the shared counters and to the result queue. Each such
  step is an event. \<open>UpdateStats a b c d\<close> is one call
  \<open>update_stats(sent=a, received=b, failed_conn=c, failed_send=d)\<close>; \<open>QueuePut r\<close> is
  \<open>result_queue.put(r)\<close>; \<open>SockSend client seq ok\<close> is one \<open>sendall\<close> of the frame
  \<open>[Client-client][Msg-seq]\<close> (burst mode, \<open>Some seq\<close>) or \<open>[Client-client]\<close> (sustained
  mode, \<open>None\<close>) with its outcome; the sample text chosen by \<open>random.choice\<close> is not read
  by any property below and is left out of the frame.
\<close>

datatype recv_result =
    RecvBytes nat
  | RecvTimeout
  | RecvError

datatype event =
    SockConnect bool
  | SockSend int "nat option" bool
  | SockRecv recv_result
  | Sleep
  | SockClose bool
  | UpdateStats int int int int
  | QueuePut worker_result
  | PrintError int

text \<open>
  What the network does to one burst-mode worker: whether creating the socket and
  connecting succeed, for each loop index whether \<open>sendall\<close> returns or raises, what
  \<open>recv(1024)\<close> does after a successful send (\<open>RecvBytes n\<close>: it returns \<open>n\<close> bytes,
  \<open>RecvTimeout\<close>: it raises \<open>socket.timeout\<close>, \<open>RecvError\<close>: it raises any other
  exception), and whether \<open>close\<close> returns.
\<close>

record worker_env =
  socket_ok :: bool
  connect_ok :: bool
  send_ok :: "nat \<Rightarrow> bool"
  recv_at :: "nat \<Rightarrow> recv_result"
  close_ok :: bool

text \<open>The local variables of \<open>client_worker\<close>, and the events it has produced so far.\<close>

record worker_state =
  sent :: int
  received :: int
  failed_send :: int
  trace :: "event list"

definition worker_start :: worker_state where
  "worker_start = \<lparr>sent = 0, received = 0, failed_send = 0, trace = []\<rparr>"

text \<open>
  One pass through the body of \<open>for i in range(messages_to_send)\<close>. The handler
  \<open>except Exception\<close> around the whole body catches a failing \<open>sendall\<close> and also a
  \<open>recv\<close> that raises anything but \<open>socket.timeout\<close>; by then \<open>sent\<close> has been counted.
  The exception skips the \<open>time.sleep(0.001)\<close> at the end of the body.
\<close>

definition send_iteration :: "int \<Rightarrow> worker_env \<Rightarrow> nat \<Rightarrow> worker_state \<Rightarrow> worker_state" where
  "send_iteration client_id env i s =
     (if \<not> send_ok env i then
        s\<lparr>failed_send := failed_send s + 1,
          trace := trace s @ [SockSend client_id (Some i) False, UpdateStats 0 0 0 1]\<rparr>
      else
        (case recv_at env i of
           RecvBytes n \<Rightarrow>
             (if n \<noteq> 0 then
                s\<lparr>sent := sent s + 1, received := received s + 1,
                  trace := trace s @
                    [SockSend client_id (Some i) True, UpdateStats 1 0 0 0,
                     SockRecv (RecvBytes n), UpdateStats 0 1 0 0, Sleep]\<rparr>
              else
                s\<lparr>sent := sent s + 1,
                  trace := trace s @
                    [SockSend client_id (Some i) True, UpdateStats 1 0 0 0,
                     SockRecv (RecvBytes n), Sleep]\<rparr>)
         | RecvTimeout \<Rightarrow>
             s\<lparr>sent := sent s + 1,
               trace := trace s @
                 [SockSend client_id (Some i) True, UpdateStats 1 0 0 0,
                  SockRecv RecvTimeout, Sleep]\<rparr>
         | RecvError \<Rightarrow>
             s\<lparr>sent := sent s + 1, failed_send := failed_send s + 1,
               trace := trace s @
                 [SockSend client_id (Some i) True, UpdateStats 1 0 0 0,
                  SockRecv RecvError, UpdateStats 0 0 0 1]\<rparr>))"

text \<open>
  The loop runs over \<open>range(messages_to_send)\<close>, which is empty for a negative argument.
\<close>

definition send_loop :: "int \<Rightarrow> worker_env \<Rightarrow> nat \<Rightarrow> worker_state \<Rightarrow> worker_state" where
  "send_loop client_id env n s = fold (send_iteration client_id env) [0..<n] s"

text \<open>
  \<open>client_worker\<close>. An exception before the connect (creating the socket) or in \<open>close\<close>
  lands in the outer handler, which prints and falls through to the final \<open>put\<close>. A failed
  connect counts one failed connection, puts its own result and returns.
\<close>

definition client_worker :: "int \<Rightarrow> int \<Rightarrow> worker_env \<Rightarrow> event list" where
  "client_worker client_id messages_to_send env =
     (if \<not> socket_ok env then
        [PrintError client_id, QueuePut (client_id, 0, 0, 0, 0)]
      else if \<not> connect_ok env then
        [SockConnect False, UpdateStats 0 0 1 0, QueuePut (client_id, 0, 0, 1, 0)]
      else
        (let s = send_loop client_id env (nat messages_to_send) worker_start
         in [SockConnect True] @ trace s @
            (if close_ok env then [SockClose True] else [SockClose False, PrintError client_id]) @
            [QueuePut (client_id, sent s, received s, 0, failed_send s)]))"

text \<open>
  The sustained worker loops \<open>while time.time() < end_time\<close>. The clock decides how many
  times the test succeeds before the deadline; the environment lists the outcome of the
  \<open>sendall\<close> of each of those passes, so the list is as long as the deadline allows. The
  worker's local \<open>sent\<close> and \<open>received\<close> are never read again and are not modelled.
\<close>

record sustained_env =
  s_socket_ok :: bool
  s_connect_ok :: bool
  s_sends :: "bool list"
  s_close_ok :: bool

fun sustained_loop :: "int \<Rightarrow> bool list \<Rightarrow> event list" where
  "sustained_loop client_id [] = []"
| "sustained_loop client_id (ok # rest) =
     (if ok then
        [SockSend client_id None True, UpdateStats 1 0 0 0, Sleep] @
        sustained_loop client_id rest
      else
        [SockSend client_id None False, UpdateStats 0 0 0 1])"

text \<open>
  \<open>sustained_client_worker\<close> takes \<open>result_queue\<close> and never uses it. Its single outer
  handler counts a failed connection for any exception outside the inner \<open>try\<close>: socket
  creation, connect, and also \<open>close\<close>.
\<close>

definition sustained_client_worker :: "int \<Rightarrow> sustained_env \<Rightarrow> event list" where
  "sustained_client_worker client_id env =
     (if \<not> s_socket_ok env then
        [UpdateStats 0 0 1 0]
      else if \<not> s_connect_ok env then
        [SockConnect False, UpdateStats 0 0 1 0]
      else
        [SockConnect True] @ sustained_loop client_id (s_sends env) @
        (if s_close_ok env then [SockClose True] else [SockClose False, UpdateStats 0 0 1 0]))"

section \<open>Running threads\<close>

text \<open>What an event does to the shared state: only the counters and the queue are shared.\<close>

fun exec_event :: "event \<Rightarrow> shared \<Rightarrow> shared" where
  "exec_event (UpdateStats a b c d) g = update_stats a b c d g"
| "exec_event (QueuePut r) g = g\<lparr>result_queue := result_queue g @ [r]\<rparr>"
| "exec_event (SockConnect ok) g = g"
| "exec_event (SockSend c i ok) g = g"
| "exec_event (SockRecv r) g = g"
| "exec_event Sleep g = g"
| "exec_event (SockClose ok) g = g"
| "exec_event (PrintError c) g = g"

text \<open>
  Threads run interleaved. A schedule names, step by step, the thread that moves next;
  naming a finished thread (or no thread) is a step in which nothing happens. The threads
  are given by the events each still has to do.
\<close>

fun run_threads :: "nat list \<Rightarrow> event list list \<Rightarrow> shared \<Rightarrow> event list list \<times> shared" where
  "run_threads [] ts g = (ts, g)"
| "run_threads (k # ks) ts g =
     (if k < length ts then
        (case ts ! k of
           [] \<Rightarrow> run_threads ks ts g
         | e # es \<Rightarrow> run_threads ks (ts[k := es]) (exec_event e g))
      else run_threads ks ts g)"

text \<open>
  \<open>for t in threads: t.join()\<close> returns when every thread has done all its events: after
  the schedule, whatever is left of each thread runs to its end.
\<close>

definition join_all :: "event list list \<Rightarrow> shared \<Rightarrow> shared" where
  "join_all ts g = fold exec_event (concat ts) g"

section \<open>Run controllers\<close>

text \<open>
  \<open>MESSAGES_PER_CLIENT = TOTAL_MESSAGES // NUM_CLIENTS\<close>: floor division, which raises
  \<open>ZeroDivisionError\<close> for zero clients.
\<close>

definition messages_per_client :: "int \<Rightarrow> int \<Rightarrow> int option" where
  "messages_per_client total_messages num_clients =
     (if num_clients = 0 then None else Some (total_messages div num_clients))"

definition launch_clients :: "int \<Rightarrow> int \<Rightarrow> (nat \<Rightarrow> worker_env) \<Rightarrow> event list list" where
  "launch_clients num_clients per_client envs =
     map (\<lambda>i. client_worker (int i) per_client (envs i)) [0..<nat num_clients]"

record run_report =
  started :: nat
  final :: shared

text \<open>
  \<open>run_load_test\<close>: the connectivity test comes first and a failure returns before any
  thread exists. Otherwise one thread per client is started, all are joined, and the
  counters are read for the report. \<open>probe_ok\<close> is the outcome of the test connection.
\<close>

definition run_load_test ::
  "int \<Rightarrow> int \<Rightarrow> bool \<Rightarrow> (nat \<Rightarrow> worker_env) \<Rightarrow> nat list \<Rightarrow> run_report" where
  "run_load_test num_clients per_client probe_ok envs sched =
     (if \<not> probe_ok then \<lparr>started = 0, final = initial_state\<rparr>
      else
        (let threads = launch_clients num_clients per_client envs;
             r = run_threads sched threads initial_state
         in \<lparr>started = length threads, final = join_all (fst r) (snd r)\<rparr>))"

definition launch_sustained :: "int \<Rightarrow> (nat \<Rightarrow> sustained_env) \<Rightarrow> event list list" where
  "launch_sustained num_clients envs =
     map (\<lambda>i. sustained_client_worker (int i) (envs i)) [0..<nat num_clients]"

text \<open>
  \<open>run_sustained_load_test\<close> starts its threads at once: there is no test connection in
  this function.
\<close>

definition run_sustained_load_test :: "int \<Rightarrow> (nat \<Rightarrow> sustained_env) \<Rightarrow> nat list \<Rightarrow> run_report" where
  "run_sustained_load_test num_clients envs sched =
     (let threads = launch_sustained num_clients envs;
          r = run_threads sched threads initial_state
      in \<lparr>started = length threads, final = join_all (fst r) (snd r)\<rparr>)"

section \<open>Progress line\<close>

text \<open>
  \<open>print_progress\<close> does everything inside \<open>with stats_lock\<close>: it reads the clock, reads
  the counters and prints. Its steps are the lock operations and the print. The elapsed
  time is a float in the source and a real here (no rounding); the division
  \<open>total_sent/elapsed\<close> raises \<open>ZeroDivisionError\<close> for a zero elapsed time, before
  anything is printed, and leaving the block releases the lock.
\<close>

record progress_line =
  shown_sent :: int
  shown_total :: int
  shown_received :: int
  shown_failed :: int
  shown_elapsed :: real
  shown_rate :: real

datatype mon_event =
    LockAcquire
  | Render progress_line
  | LockRelease

definition progress_of :: "int \<Rightarrow> real \<Rightarrow> shared \<Rightarrow> progress_line" where
  "progress_of total_messages elapsed g =
     \<lparr>shown_sent = total_sent g, shown_total = total_messages,
      shown_received = total_received g,
      shown_failed = failed_connections g + failed_sends g,
      shown_elapsed = elapsed, shown_rate = real_of_int (total_sent g) / elapsed\<rparr>"

definition print_progress :: "int \<Rightarrow> real \<Rightarrow> shared \<Rightarrow> mon_event list" where
  "print_progress total_messages elapsed g =
     (if elapsed = 0 then [LockAcquire, LockRelease]
      else [LockAcquire, Render (progress_of total_messages elapsed g), LockRelease])"

text \<open>
  \<open>monitor_progress\<close> calls \<open>print_progress\<close> once per poll, as long as some thread is
  alive; each poll finds the shared state as the workers have left it and its own elapsed
  time. An exception in \<open>print_progress\<close> ends the monitor thread.
\<close>

fun monitor_progress :: "int \<Rightarrow> (real \<times> shared) list \<Rightarrow> mon_event list" where
  "monitor_progress total_messages [] = []"
| "monitor_progress total_messages ((elapsed, g) # polls) =
     (if elapsed = 0 then print_progress total_messages elapsed g
      else print_progress total_messages elapsed g @ monitor_progress total_messages polls)"

text \<open>
  Reading a trace of lock operations and prints: \<open>held\<close> says whether the lock is held
  before the first event. \<open>renders_unlocked\<close> holds when every print happens with the
  lock free, \<open>renders_locked\<close> when every print happens with the lock held.
\<close>

fun renders_unlocked :: "bool \<Rightarrow> mon_event list \<Rightarrow> bool" where
  "renders_unlocked held [] = True"
| "renders_unlocked held (LockAcquire # es) = renders_unlocked True es"
| "renders_unlocked held (LockRelease # es) = renders_unlocked False es"
| "renders_unlocked held (Render l # es) = (\<not> held \<and> renders_unlocked held es)"

fun renders_locked :: "bool \<Rightarrow> mon_event list \<Rightarrow> bool" where
  "renders_locked held [] = True"
| "renders_locked held (LockAcquire # es) = renders_locked True es"
| "renders_locked held (LockRelease # es) = renders_locked False es"
| "renders_locked held (Render l # es) = (held \<and> renders_locked held es)"

fun rendered :: "mon_event list \<Rightarrow> progress_line list" where
  "rendered [] = []"
| "rendered (Render l # es) = l # rendered es"
| "rendered (LockAcquire # es) = rendered es"
| "rendered (LockRelease # es) = rendered es"

section \<open>Reading traces\<close>

text \<open>The deltas an event adds to each counter, and what it adds to the queue.\<close>

fun ev_sent :: "event \<Rightarrow> int" where
  "ev_sent (UpdateStats a b c d) = a"
| "ev_sent (SockConnect ok) = 0"
| "ev_sent (SockSend c i ok) = 0"
| "ev_sent (SockRecv r) = 0"
| "ev_sent Sleep = 0"
| "ev_sent (SockClose ok) = 0"
| "ev_sent (QueuePut r) = 0"
| "ev_sent (PrintError c) = 0"

fun ev_received :: "event \<Rightarrow> int" where
  "ev_received (UpdateStats a b c d) = b"
| "ev_received (SockConnect ok) = 0"
| "ev_received (SockSend c i ok) = 0"
| "ev_received (SockRecv r) = 0"
| "ev_received Sleep = 0"
| "ev_received (SockClose ok) = 0"
| "ev_received (QueuePut r) = 0"
| "ev_received (PrintError c) = 0"

fun ev_failed_conn :: "event \<Rightarrow> int" where
  "ev_failed_conn (UpdateStats a b c d) = c"
| "ev_failed_conn (SockConnect ok) = 0"
| "ev_failed_conn (SockSend c i ok) = 0"
| "ev_failed_conn (SockRecv r) = 0"
| "ev_failed_conn Sleep = 0"
| "ev_failed_conn (SockClose ok) = 0"
| "ev_failed_conn (QueuePut r) = 0"
| "ev_failed_conn (PrintError c) = 0"

fun ev_failed_send :: "event \<Rightarrow> int" where
  "ev_failed_send (UpdateStats a b c d) = d"
| "ev_failed_send (SockConnect ok) = 0"
| "ev_failed_send (SockSend c i ok) = 0"
| "ev_failed_send (SockRecv r) = 0"
| "ev_failed_send Sleep = 0"
| "ev_failed_send (SockClose ok) = 0"
| "ev_failed_send (QueuePut r) = 0"
| "ev_failed_send (PrintError c) = 0"

fun published :: "event list \<Rightarrow> worker_result list" where
  "published [] = []"
| "published (QueuePut r # es) = r # published es"
| "published (UpdateStats a b c d # es) = published es"
| "published (SockConnect ok # es) = published es"
| "published (SockSend c i ok # es) = published es"
| "published (SockRecv r # es) = published es"
| "published (Sleep # es) = published es"
| "published (SockClose ok # es) = published es"
| "published (PrintError c # es) = published es"

text \<open>The send attempts of a trace, in order: sequence number and outcome.\<close>

fun send_attempts :: "event list \<Rightarrow> (nat option \<times> bool) list" where
  "send_attempts [] = []"
| "send_attempts (SockSend c i ok # es) = (i, ok) # send_attempts es"
| "send_attempts (QueuePut r # es) = send_attempts es"
| "send_attempts (UpdateStats a b c d # es) = send_attempts es"
| "send_attempts (SockConnect ok # es) = send_attempts es"
| "send_attempts (SockRecv r # es) = send_attempts es"
| "send_attempts (Sleep # es) = send_attempts es"
| "send_attempts (SockClose ok # es) = send_attempts es"
| "send_attempts (PrintError c # es) = send_attempts es"

fun recv_attempts :: "event list \<Rightarrow> recv_result list" where
  "recv_attempts [] = []"
| "recv_attempts (SockRecv r # es) = r # recv_attempts es"
| "recv_attempts (SockSend c i ok # es) = recv_attempts es"
| "recv_attempts (QueuePut r # es) = recv_attempts es"
| "recv_attempts (UpdateStats a b c d # es) = recv_attempts es"
| "recv_attempts (SockConnect ok # es) = recv_attempts es"
| "recv_attempts (Sleep # es) = recv_attempts es"
| "recv_attempts (SockClose ok # es) = recv_attempts es"
| "recv_attempts (PrintError c # es) = recv_attempts es"

text \<open>The fields of a result tuple.\<close>

definition res_sent :: "worker_result \<Rightarrow> int" where
  "res_sent r = (case r of (c, s, rc, fc, fs) \<Rightarrow> s)"

definition res_received :: "worker_result \<Rightarrow> int" where
  "res_received r = (case r of (c, s, rc, fc, fs) \<Rightarrow> rc)"

definition res_failed_conn :: "worker_result \<Rightarrow> int" where
  "res_failed_conn r = (case r of (c, s, rc, fc, fs) \<Rightarrow> fc)"

definition res_failed_send :: "worker_result \<Rightarrow> int" where
  "res_failed_send r = (case r of (c, s, rc, fc, fs) \<Rightarrow> fs)"


section \<open>Traces of the burst worker\<close>

lemma published_append: "published (xs @ ys) = published xs @ published ys"
  by (induction xs rule: published.induct) simp_all

lemma send_attempts_append: "send_attempts (xs @ ys) = send_attempts xs @ send_attempts ys"
  by (induction xs rule: send_attempts.induct) simp_all

lemma recv_attempts_append: "recv_attempts (xs @ ys) = recv_attempts xs @ recv_attempts ys"
  by (induction xs rule: recv_attempts.induct) simp_all

lemma send_loop_0: "send_loop c env 0 s = s"
  by (simp add: send_loop_def)

lemma send_loop_Suc: "send_loop c env (Suc n) s = send_iteration c env n (send_loop c env n s)"
  by (simp add: send_loop_def)

lemma send_iteration_cases:
  obtains (send_failed) "\<not> send_ok env i"
      "send_iteration c env i s =
         s\<lparr>failed_send := failed_send s + 1,
           trace := trace s @ [SockSend c (Some i) False, UpdateStats 0 0 0 1]\<rparr>"
  | (acked) n where "send_ok env i" "recv_at env i = RecvBytes n" "n \<noteq> 0"
      "send_iteration c env i s =
         s\<lparr>sent := sent s + 1, received := received s + 1,
           trace := trace s @
             [SockSend c (Some i) True, UpdateStats 1 0 0 0,
              SockRecv (RecvBytes n), UpdateStats 0 1 0 0, Sleep]\<rparr>"
  | (quiet) r where "send_ok env i" "recv_at env i = r" "r = RecvBytes 0 \<or> r = RecvTimeout"
      "send_iteration c env i s =
         s\<lparr>sent := sent s + 1,
           trace := trace s @
             [SockSend c (Some i) True, UpdateStats 1 0 0 0, SockRecv r, Sleep]\<rparr>"
  | (recv_failed) "send_ok env i" "recv_at env i = RecvError"
      "send_iteration c env i s =
         s\<lparr>sent := sent s + 1, failed_send := failed_send s + 1,
           trace := trace s @
             [SockSend c (Some i) True, UpdateStats 1 0 0 0,
              SockRecv RecvError, UpdateStats 0 0 0 1]\<rparr>"
  by (cases "send_ok env i"; cases "recv_at env i") (auto simp: send_iteration_def)


lemma send_loop_counts:
  "sent (send_loop c env n s) = sent s + sum_list (map ev_sent (trace (send_loop c env n s))) - sum_list (map ev_sent (trace s)) \<and>
   received (send_loop c env n s) = received s + sum_list (map ev_received (trace (send_loop c env n s))) - sum_list (map ev_received (trace s)) \<and>
   failed_send (send_loop c env n s) = failed_send s + sum_list (map ev_failed_send (trace (send_loop c env n s))) - sum_list (map ev_failed_send (trace s)) \<and>
   sum_list (map ev_failed_conn (trace (send_loop c env n s))) = sum_list (map ev_failed_conn (trace s)) \<and>
   published (trace (send_loop c env n s)) = published (trace s)"
proof (induction n)
  case 0
  show ?case by (simp add: send_loop_0)
next
  case (Suc n)
  show ?case
    by (rule send_iteration_cases [of env n c "send_loop c env n s"])
       (simp_all add: send_loop_Suc Suc.IH published_append)
qed

lemma send_loop_bounds:
  "sent s \<le> sent (send_loop c env n s) \<and> sent (send_loop c env n s) \<le> sent s + int n \<and>
   received (send_loop c env n s) - received s \<le> sent (send_loop c env n s) - sent s \<and>
   received s \<le> received (send_loop c env n s) \<and>
   failed_send s \<le> failed_send (send_loop c env n s) \<and>
   failed_send (send_loop c env n s) \<le> failed_send s + int n"
proof (induction n)
  case 0
  show ?case by (simp add: send_loop_0)
next
  case (Suc n)
  show ?case
    using Suc.IH
    by (rule_tac send_iteration_cases [of env n c "send_loop c env n s"])
       (simp_all add: send_loop_Suc)
qed

lemma send_loop_attempts:
  "send_attempts (trace (send_loop c env n s)) =
     send_attempts (trace s) @ map (\<lambda>j. (Some j, send_ok env j)) [0..<n]"
proof (induction n)
  case 0
  show ?case by (simp add: send_loop_0)
next
  case (Suc n)
  show ?case
    by (rule send_iteration_cases [of env n c "send_loop c env n s"])
       (simp_all add: send_loop_Suc Suc.IH send_attempts_append)
qed

lemma send_loop_all_ok:
  "(\<forall>j<n. send_ok env j) \<Longrightarrow> sent (send_loop c env n s) = sent s + int n"
proof (induction n)
  case 0
  show ?case by (simp add: send_loop_0)
next
  case (Suc n)
  then have ih: "sent (send_loop c env n s) = sent s + int n" and ok: "send_ok env n"
    by simp_all
  show ?case
    using ih ok
    by (rule_tac send_iteration_cases [of env n c "send_loop c env n s"])
       (simp_all add: send_loop_Suc)
qed


subsection \<open>One worker\<close>

lemma worker_start_fields:
  "sent worker_start = 0" "received worker_start = 0" "failed_send worker_start = 0"
  "trace worker_start = []"
  by (simp_all add: worker_start_def)

lemma loop_from_start:
  "sent (send_loop c env n worker_start) =
     sum_list (map ev_sent (trace (send_loop c env n worker_start))) \<and>
   received (send_loop c env n worker_start) =
     sum_list (map ev_received (trace (send_loop c env n worker_start))) \<and>
   failed_send (send_loop c env n worker_start) =
     sum_list (map ev_failed_send (trace (send_loop c env n worker_start))) \<and>
   sum_list (map ev_failed_conn (trace (send_loop c env n worker_start))) = 0 \<and>
   published (trace (send_loop c env n worker_start)) = [] \<and>
   0 \<le> sent (send_loop c env n worker_start) \<and>
   sent (send_loop c env n worker_start) \<le> int n \<and>
   0 \<le> received (send_loop c env n worker_start) \<and>
   received (send_loop c env n worker_start) \<le> sent (send_loop c env n worker_start) \<and>
   0 \<le> failed_send (send_loop c env n worker_start) \<and>
   failed_send (send_loop c env n worker_start) \<le> int n"
  using send_loop_counts [of c env n worker_start] send_loop_bounds [of worker_start c env n]
  by (simp add: worker_start_fields)

lemma client_worker_published_length: "length (published (client_worker c m env)) = 1"
  using loop_from_start [of c env "nat m"]
  by (simp add: client_worker_def Let_def published_append)

lemma client_worker_totals:
  "sum_list (map ev_sent (client_worker c m env)) = sum_list (map res_sent (published (client_worker c m env))) \<and>
   sum_list (map ev_received (client_worker c m env)) = sum_list (map res_received (published (client_worker c m env))) \<and>
   sum_list (map ev_failed_conn (client_worker c m env)) = sum_list (map res_failed_conn (published (client_worker c m env))) \<and>
   sum_list (map ev_failed_send (client_worker c m env)) = sum_list (map res_failed_send (published (client_worker c m env)))"
  using loop_from_start [of c env "nat m"]
  by (simp add: client_worker_def Let_def published_append res_sent_def res_received_def
      res_failed_conn_def res_failed_send_def)

lemma client_worker_sent_bounds:
  "0 \<le> sum_list (map ev_sent (client_worker c m env)) \<and>
   sum_list (map ev_sent (client_worker c m env)) \<le> int (nat m)"
  using loop_from_start [of c env "nat m"]
  by (simp add: client_worker_def Let_def del: int_nat_eq)

lemma client_worker_sent_all_ok:
  assumes "socket_ok env" "connect_ok env" "\<forall>j<nat m. send_ok env j"
  shows "sum_list (map ev_sent (client_worker c m env)) = int (nat m)"
  using loop_from_start [of c env "nat m"]
    send_loop_all_ok [OF assms(3), of c worker_start] assms(1,2)
  by (simp add: client_worker_def Let_def worker_start_fields del: int_nat_eq)

lemma client_worker_received_le_sent:
  "r \<in> set (published (client_worker c m env)) \<Longrightarrow> res_received r \<le> res_sent r"
  using loop_from_start [of c env "nat m"]
  by (auto simp add: client_worker_def Let_def published_append res_sent_def res_received_def split: if_splits)

lemma client_worker_attempts:
  "socket_ok env \<Longrightarrow> connect_ok env \<Longrightarrow>
   send_attempts (client_worker c m env) = map (\<lambda>j. (Some j, send_ok env j)) [0..<nat m]"
  using send_loop_attempts [of c env "nat m" worker_start]
  by (simp add: client_worker_def Let_def send_attempts_append worker_start_fields)

subsection \<open>Any schedule\<close>

lemma sum_list_map_update:
  fixes f :: "'a \<Rightarrow> int"
  shows "k < length xs \<Longrightarrow> sum_list (map f (xs[k := y])) = sum_list (map f xs) - f (xs ! k) + f y"
proof (induction xs arbitrary: k)
  case Nil
  then show ?case by simp
next
  case (Cons x xs)
  then show ?case by (cases k) simp_all
qed

lemma run_threads_additive:
  fixes p :: "shared \<Rightarrow> int" and m :: "event \<Rightarrow> int"
  assumes step: "\<And>e g. p (exec_event e g) = p g + m e"
  shows "p (snd (run_threads ks ts g)) +
           sum_list (map (\<lambda>t. sum_list (map m t)) (fst (run_threads ks ts g))) =
         p g + sum_list (map (\<lambda>t. sum_list (map m t)) ts)"
proof (induction ks arbitrary: ts g)
  case Nil
  show ?case by simp
next
  case (Cons k ks)
  show ?case
  proof (cases "k < length ts")
    case False
    then show ?thesis using Cons.IH [of ts g] by simp
  next
    case True
    show ?thesis
    proof (cases "ts ! k")
      case Nil
      then show ?thesis using True Cons.IH [of ts g] by simp
    next
      case (Cons e es)
      have "sum_list (map (\<lambda>t. sum_list (map m t)) (ts[k := es])) =
            sum_list (map (\<lambda>t. sum_list (map m t)) ts) - m e"
        using True Cons by (simp add: sum_list_map_update)
      then show ?thesis
        using True Cons Cons.IH [of "ts[k := es]" "exec_event e g"] step [of e g] by simp
    qed
  qed
qed

lemma fold_exec_additive:
  fixes p :: "shared \<Rightarrow> int" and m :: "event \<Rightarrow> int"
  assumes step: "\<And>e g. p (exec_event e g) = p g + m e"
  shows "p (fold exec_event es g) = p g + sum_list (map m es)"
  by (induction es arbitrary: g) (simp_all add: step)

lemma sum_list_concat_map:
  fixes m :: "'a \<Rightarrow> int"
  shows "sum_list (map m (concat ts)) = sum_list (map (\<lambda>t. sum_list (map m t)) ts)"
  by (induction ts) simp_all

lemma execution_additive:
  fixes p :: "shared \<Rightarrow> int" and m :: "event \<Rightarrow> int"
  assumes step: "\<And>e g. p (exec_event e g) = p g + m e"
  shows "p (join_all (fst (run_threads ks ts g)) (snd (run_threads ks ts g))) =
         p g + sum_list (map (\<lambda>t. sum_list (map m t)) ts)"
  using run_threads_additive [of p m ks ts g, OF step]
    fold_exec_additive [of p m "concat (fst (run_threads ks ts g))" "snd (run_threads ks ts g)", OF step]
  by (simp add: join_all_def sum_list_concat_map)


subsection \<open>Events on the shared state\<close>

lemma exec_event_counters:
  "total_sent (exec_event e g) = total_sent g + ev_sent e"
  "total_received (exec_event e g) = total_received g + ev_received e"
  "failed_connections (exec_event e g) = failed_connections g + ev_failed_conn e"
  "failed_sends (exec_event e g) = failed_sends g + ev_failed_send e"
  by (cases e; simp add: update_stats_def)+

lemma exec_event_queue: "result_queue (exec_event e g) = result_queue g @ published [e]"
  by (cases e) (simp_all add: update_stats_def)

lemma exec_event_queue_sum:
  fixes f :: "worker_result \<Rightarrow> int"
  shows "sum_list (map f (result_queue (exec_event e g))) =
         sum_list (map f (result_queue g)) + sum_list (map f (published [e]))"
  by (simp add: exec_event_queue)

lemma exec_event_queue_length:
  "int (length (result_queue (exec_event e g))) =
   int (length (result_queue g)) + int (length (published [e]))"
  by (simp add: exec_event_queue)

lemma published_sum:
  fixes f :: "worker_result \<Rightarrow> int"
  shows "sum_list (map (\<lambda>e. sum_list (map f (published [e]))) t) = sum_list (map f (published t))"
  by (induction t rule: published.induct) simp_all

lemma published_count:
  "sum_list (map (\<lambda>e. int (length (published [e]))) t) = int (length (published t))"
  by (induction t rule: published.induct) simp_all

lemma sum_list_le_const:
  fixes f :: "'a \<Rightarrow> int"
  shows "(\<And>x. x \<in> set xs \<Longrightarrow> f x \<le> b) \<Longrightarrow> sum_list (map f xs) \<le> int (length xs) * b"
  by (induction xs) (auto simp: algebra_simps intro: add_mono)

lemma sum_list_eq_const:
  fixes f :: "'a \<Rightarrow> int"
  shows "(\<And>x. x \<in> set xs \<Longrightarrow> f x = b) \<Longrightarrow> sum_list (map f xs) = int (length xs) * b"
  by (induction xs) (auto simp: algebra_simps)

lemma sum_list_nonneg_int:
  fixes f :: "'a \<Rightarrow> int"
  shows "(\<And>x. x \<in> set xs \<Longrightarrow> 0 \<le> f x) \<Longrightarrow> 0 \<le> sum_list (map f xs)"
  by (induction xs) auto

section \<open>Counter atomicity\<close>

lemma apply_calls_fields:
  "total_sent (apply_calls cs g) = total_sent g + sum_list (map call_sent cs) \<and>
   total_received (apply_calls cs g) = total_received g + sum_list (map call_received cs) \<and>
   failed_connections (apply_calls cs g) =
     failed_connections g + sum_list (map call_failed_conn cs) \<and>
   failed_sends (apply_calls cs g) = failed_sends g + sum_list (map call_failed_send cs) \<and>
   result_queue (apply_calls cs g) = result_queue g"
  unfolding apply_calls_def
proof (induction cs arbitrary: g)
  case Nil
  show ?case by simp
next
  case (Cons c cs)
  obtain a b x y where c: "c = (a, b, x, y)"
    by (cases c) auto
  show ?case
    using Cons.IH [of "apply_call c g"]
    by (simp add: c apply_call_def update_stats_def call_sent_def call_received_def
        call_failed_conn_def call_failed_send_def)
qed

text \<open>
  C1. Whatever sequence of \<open>update_stats\<close> calls the lock serialises, starting from the
  zeroed counters, each counter ends as the exact sum of the deltas given for it, and the
  same holds after every prefix of the sequence: a reader that takes the lock between two
  calls sees all four fields of every earlier call and nothing of a later one. The same
  for any number of threads that make their calls concurrently: under every schedule,
  at every moment each counter is the sum of the deltas of the calls made so far (what
  the threads have still to do is missing, nothing else), and when all threads are done
  it is the sum over all calls of all threads. The deltas need not even be non-negative.
\<close>

theorem update_stats_exact_sums:
  "total_sent (apply_calls (take k cs) initial_state) = sum_list (map call_sent (take k cs)) \<and>
   total_received (apply_calls (take k cs) initial_state) =
     sum_list (map call_received (take k cs)) \<and>
   failed_connections (apply_calls (take k cs) initial_state) =
     sum_list (map call_failed_conn (take k cs)) \<and>
   failed_sends (apply_calls (take k cs) initial_state) =
     sum_list (map call_failed_send (take k cs)) \<and>
   total_sent (apply_calls cs initial_state) = sum_list (map call_sent cs) \<and>
   total_received (apply_calls cs initial_state) = sum_list (map call_received cs) \<and>
   failed_connections (apply_calls cs initial_state) = sum_list (map call_failed_conn cs) \<and>
   failed_sends (apply_calls cs initial_state) = sum_list (map call_failed_send cs) \<and>
   total_sent (snd (run_threads sched ts initial_state)) =
     sum_list (map ev_sent (concat ts)) -
     sum_list (map ev_sent (concat (fst (run_threads sched ts initial_state)))) \<and>
   total_received (snd (run_threads sched ts initial_state)) =
     sum_list (map ev_received (concat ts)) -
     sum_list (map ev_received (concat (fst (run_threads sched ts initial_state)))) \<and>
   failed_connections (snd (run_threads sched ts initial_state)) =
     sum_list (map ev_failed_conn (concat ts)) -
     sum_list (map ev_failed_conn (concat (fst (run_threads sched ts initial_state)))) \<and>
   failed_sends (snd (run_threads sched ts initial_state)) =
     sum_list (map ev_failed_send (concat ts)) -
     sum_list (map ev_failed_send (concat (fst (run_threads sched ts initial_state)))) \<and>
   total_sent (join_all (fst (run_threads sched ts initial_state))
       (snd (run_threads sched ts initial_state))) = sum_list (map ev_sent (concat ts)) \<and>
   total_received (join_all (fst (run_threads sched ts initial_state))
       (snd (run_threads sched ts initial_state))) = sum_list (map ev_received (concat ts)) \<and>
   failed_connections (join_all (fst (run_threads sched ts initial_state))
       (snd (run_threads sched ts initial_state))) = sum_list (map ev_failed_conn (concat ts)) \<and>
   failed_sends (join_all (fst (run_threads sched ts initial_state))
       (snd (run_threads sched ts initial_state))) = sum_list (map ev_failed_send (concat ts))"
proof -
  have serial: "total_sent (apply_calls xs initial_state) = sum_list (map call_sent xs) \<and>
      total_received (apply_calls xs initial_state) = sum_list (map call_received xs) \<and>
      failed_connections (apply_calls xs initial_state) = sum_list (map call_failed_conn xs) \<and>
      failed_sends (apply_calls xs initial_state) = sum_list (map call_failed_send xs)" for xs
    using apply_calls_fields [of xs initial_state] by (simp add: initial_state_def)
  have during: "total_sent (snd (run_threads sched ts initial_state)) =
      sum_list (map ev_sent (concat ts)) -
      sum_list (map ev_sent (concat (fst (run_threads sched ts initial_state)))) \<and>
    total_received (snd (run_threads sched ts initial_state)) =
      sum_list (map ev_received (concat ts)) -
      sum_list (map ev_received (concat (fst (run_threads sched ts initial_state)))) \<and>
    failed_connections (snd (run_threads sched ts initial_state)) =
      sum_list (map ev_failed_conn (concat ts)) -
      sum_list (map ev_failed_conn (concat (fst (run_threads sched ts initial_state)))) \<and>
    failed_sends (snd (run_threads sched ts initial_state)) =
      sum_list (map ev_failed_send (concat ts)) -
      sum_list (map ev_failed_send (concat (fst (run_threads sched ts initial_state))))"
    using run_threads_additive [of total_sent ev_sent sched ts initial_state]
      run_threads_additive [of total_received ev_received sched ts initial_state]
      run_threads_additive [of failed_connections ev_failed_conn sched ts initial_state]
      run_threads_additive [of failed_sends ev_failed_send sched ts initial_state]
    by (simp add: exec_event_counters sum_list_concat_map initial_state_def)
  have joined: "total_sent (join_all (fst (run_threads sched ts initial_state))
        (snd (run_threads sched ts initial_state))) = sum_list (map ev_sent (concat ts)) \<and>
    total_received (join_all (fst (run_threads sched ts initial_state))
        (snd (run_threads sched ts initial_state))) = sum_list (map ev_received (concat ts)) \<and>
    failed_connections (join_all (fst (run_threads sched ts initial_state))
        (snd (run_threads sched ts initial_state))) =
      sum_list (map ev_failed_conn (concat ts)) \<and>
    failed_sends (join_all (fst (run_threads sched ts initial_state))
        (snd (run_threads sched ts initial_state))) = sum_list (map ev_failed_send (concat ts))"
    using execution_additive [of total_sent ev_sent sched ts initial_state]
      execution_additive [of total_received ev_received sched ts initial_state]
      execution_additive [of failed_connections ev_failed_conn sched ts initial_state]
      execution_additive [of failed_sends ev_failed_send sched ts initial_state]
    by (simp add: exec_event_counters sum_list_concat_map initial_state_def)
  show ?thesis
    using serial [of "take k cs"] serial [of cs] during joined by simp
qed

section \<open>The burst run\<close>

lemma burst_final_counters:
  "total_sent (final (run_load_test n m True envs sched)) =
     sum_list (map (\<lambda>t. sum_list (map ev_sent t)) (launch_clients n m envs))"
  "total_received (final (run_load_test n m True envs sched)) =
     sum_list (map (\<lambda>t. sum_list (map ev_received t)) (launch_clients n m envs))"
  "failed_connections (final (run_load_test n m True envs sched)) =
     sum_list (map (\<lambda>t. sum_list (map ev_failed_conn t)) (launch_clients n m envs))"
  "failed_sends (final (run_load_test n m True envs sched)) =
     sum_list (map (\<lambda>t. sum_list (map ev_failed_send t)) (launch_clients n m envs))"
  using execution_additive [of total_sent ev_sent sched "launch_clients n m envs" initial_state]
    execution_additive [of total_received ev_received sched "launch_clients n m envs" initial_state]
    execution_additive [of failed_connections ev_failed_conn sched "launch_clients n m envs" initial_state]
    execution_additive [of failed_sends ev_failed_send sched "launch_clients n m envs" initial_state]
  by (simp_all add: run_load_test_def Let_def exec_event_counters initial_state_def)

lemma burst_final_queue_sum:
  fixes f :: "worker_result \<Rightarrow> int"
  shows "sum_list (map f (result_queue (final (run_load_test n m True envs sched)))) =
     sum_list (map (\<lambda>t. sum_list (map f (published t))) (launch_clients n m envs))"
  using execution_additive [of "\<lambda>g. sum_list (map f (result_queue g))"
      "\<lambda>e. sum_list (map f (published [e]))" sched "launch_clients n m envs" initial_state]
  by (simp add: run_load_test_def Let_def exec_event_queue published_sum initial_state_def)

lemma burst_final_queue_length:
  "length (result_queue (final (run_load_test n m True envs sched))) = nat n"
proof -
  have "int (length (result_queue (final (run_load_test n m True envs sched)))) =
        sum_list (map (\<lambda>t. int (length (published t))) (launch_clients n m envs))"
    using execution_additive [of "\<lambda>g. int (length (result_queue g))"
      "\<lambda>e. int (length (published [e]))" sched "launch_clients n m envs" initial_state]
    by (simp add: run_load_test_def Let_def exec_event_queue published_count initial_state_def)
  also have "\<dots> = int (length (launch_clients n m envs)) * 1"
    by (rule sum_list_eq_const) (auto simp: launch_clients_def client_worker_published_length)
  finally have "int (length (result_queue (final (run_load_test n m True envs sched)))) =
      int (nat n)"
    by (simp add: launch_clients_def del: int_nat_eq)
  then show ?thesis
    by (simp only: of_nat_eq_iff)
qed

lemma launch_clients_totals:
  "sum_list (map (\<lambda>t. sum_list (map ev_sent t)) (launch_clients n m envs)) =
     sum_list (map (\<lambda>t. sum_list (map res_sent (published t))) (launch_clients n m envs))"
  "sum_list (map (\<lambda>t. sum_list (map ev_received t)) (launch_clients n m envs)) =
     sum_list (map (\<lambda>t. sum_list (map res_received (published t))) (launch_clients n m envs))"
  "sum_list (map (\<lambda>t. sum_list (map ev_failed_conn t)) (launch_clients n m envs)) =
     sum_list (map (\<lambda>t. sum_list (map res_failed_conn (published t))) (launch_clients n m envs))"
  "sum_list (map (\<lambda>t. sum_list (map ev_failed_send t)) (launch_clients n m envs)) =
     sum_list (map (\<lambda>t. sum_list (map res_failed_send (published t))) (launch_clients n m envs))"
  by (simp_all add: launch_clients_def comp_def client_worker_totals)

text \<open>
  C9. When \<open>run_load_test\<close> has joined all its workers, whatever the network did to each
  of them and however the threads were interleaved, every global counter equals the sum
  of the matching field over the results in the queue, and the queue holds one result per
  worker started. (After a failed connectivity test nothing was started: the counters are
  zero and the queue is empty.)
\<close>

theorem burst_counters_match_results:
  "total_sent (final (run_load_test n m probe_ok envs sched)) =
     sum_list (map res_sent (result_queue (final (run_load_test n m probe_ok envs sched)))) \<and>
   total_received (final (run_load_test n m probe_ok envs sched)) =
     sum_list (map res_received (result_queue (final (run_load_test n m probe_ok envs sched)))) \<and>
   failed_connections (final (run_load_test n m probe_ok envs sched)) =
     sum_list (map res_failed_conn (result_queue (final (run_load_test n m probe_ok envs sched)))) \<and>
   failed_sends (final (run_load_test n m probe_ok envs sched)) =
     sum_list (map res_failed_send (result_queue (final (run_load_test n m probe_ok envs sched)))) \<and>
   length (result_queue (final (run_load_test n m probe_ok envs sched))) =
     started (run_load_test n m probe_ok envs sched)"
proof (cases probe_ok)
  case False
  then show ?thesis
    by (simp add: run_load_test_def initial_state_def)
next
  case True
  have "started (run_load_test n m True envs sched) = nat n"
    by (simp add: run_load_test_def Let_def launch_clients_def)
  then show ?thesis
    using True
    by (simp add: burst_final_counters burst_final_queue_sum burst_final_queue_length
        launch_clients_totals)
qed

section \<open>Burst completion bound\<close>

lemma send_loop_events_nonneg:
  "e \<in> set (trace (send_loop c env n s)) \<Longrightarrow> e \<in> set (trace s) \<or> 0 \<le> ev_sent e"
proof (induction n arbitrary: e)
  case 0
  then show ?case by (simp add: send_loop_0)
next
  case (Suc n)
  from Suc.prems show ?case
    using Suc.IH [of e]
    by (rule_tac send_iteration_cases [of env n c "send_loop c env n s"])
       (auto simp add: send_loop_Suc)
qed

lemma client_worker_events_nonneg:
  "e \<in> set (client_worker c m env) \<Longrightarrow> 0 \<le> ev_sent e"
  using send_loop_events_nonneg [of e c env "nat m" worker_start]
  by (auto simp add: client_worker_def Let_def worker_start_fields split: if_splits)

lemma run_threads_upper:
  fixes p :: "shared \<Rightarrow> int" and m :: "event \<Rightarrow> int"
  assumes step: "\<And>e g. p (exec_event e g) = p g + m e"
  shows "(\<And>t e. t \<in> set ts \<Longrightarrow> e \<in> set t \<Longrightarrow> 0 \<le> m e) \<Longrightarrow>
     p (snd (run_threads ks ts g)) \<le> p g + sum_list (map (\<lambda>t. sum_list (map m t)) ts)"
proof (induction ks arbitrary: ts g)
  case Nil
  have "0 \<le> sum_list (map (\<lambda>t. sum_list (map m t)) ts)"
    by (rule sum_list_nonneg_int, rule sum_list_nonneg_int) (rule Nil)
  then show ?case by simp
next
  case (Cons k ks)
  show ?case
  proof (cases "k < length ts")
    case False
    then show ?thesis using Cons.IH [of ts g] Cons.prems by simp
  next
    case True
    show ?thesis
    proof (cases "ts ! k")
      case Nil
      then show ?thesis using True Cons.IH [of ts g] Cons.prems by simp
    next
      case (Cons e es)
      have mem: "e # es \<in> set ts"
        using True Cons by (metis nth_mem)
      have sum: "sum_list (map (\<lambda>t. sum_list (map m t)) (ts[k := es])) =
            sum_list (map (\<lambda>t. sum_list (map m t)) ts) - m e"
        using True Cons by (simp add: sum_list_map_update)
      have "p (snd (run_threads ks (ts[k := es]) (exec_event e g))) \<le>
            p (exec_event e g) + sum_list (map (\<lambda>t. sum_list (map m t)) (ts[k := es]))"
      proof (rule Cons.IH)
        fix t x
        assume t: "t \<in> set (ts[k := es])" and x: "x \<in> set t"
        from t have "t = es \<or> t \<in> set ts"
          using set_update_subset_insert [of ts k es] by auto
        then show "0 \<le> m x"
        proof
          assume "t = es"
          with x have "x \<in> set (e # es)" by simp
          with mem show ?thesis by (rule Cons.prems)
        next
          assume "t \<in> set ts"
          then show ?thesis using x by (rule Cons.prems)
        qed
      qed
      then show ?thesis
        using True Cons sum step [of e g] by simp
    qed
  qed
qed

lemma launch_clients_sent_le:
  "sum_list (map (\<lambda>t. sum_list (map ev_sent t)) (launch_clients n m envs)) \<le> int (nat n) * int (nat m)"
proof -
  have "sum_list (map (\<lambda>t. sum_list (map ev_sent t)) (launch_clients n m envs)) \<le>
        int (length (launch_clients n m envs)) * int (nat m)"
    by (rule sum_list_le_const) (auto simp: launch_clients_def client_worker_sent_bounds simp del: int_nat_eq)
  then show ?thesis
    by (simp add: launch_clients_def del: int_nat_eq)
qed

lemma launch_clients_sent_all_ok:
  assumes "\<forall>i<nat n. socket_ok (envs i) \<and> connect_ok (envs i) \<and> (\<forall>j<nat m. send_ok (envs i) j)"
  shows "sum_list (map (\<lambda>t. sum_list (map ev_sent t)) (launch_clients n m envs)) = int (nat n) * int (nat m)"
proof -
  have "sum_list (map (\<lambda>t. sum_list (map ev_sent t)) (launch_clients n m envs)) =
        int (length (launch_clients n m envs)) * int (nat m)"
    by (rule sum_list_eq_const) (use assms in \<open>auto simp: launch_clients_def client_worker_sent_all_ok simp del: int_nat_eq\<close>)
  then show ?thesis
    by (simp add: launch_clients_def del: int_nat_eq)
qed

lemma send_iteration_sent_step:
  "sent s \<le> sent (send_iteration c env i s) \<and> sent (send_iteration c env i s) \<le> sent s + 1"
  by (rule send_iteration_cases [of env i c s]) simp_all

text \<open>
  C3. A burst run with \<open>num_clients\<close> clients (at least one) and a non-negative
  \<open>total_messages\<close> gives every worker \<open>m = total_messages // num_clients\<close> messages.
  Then \<open>total_sent\<close> is at most \<open>num_clients * m\<close> at every moment of every interleaving
  and when the run has joined its workers, and it ends equal to \<open>num_clients * m\<close> when the
  test connection, every worker's socket and connect and every \<open>sendall\<close> succeed. A
  connected worker makes exactly \<open>m\<close> send attempts, one for each index of the loop in
  order, and one pass of the loop raises \<open>sent\<close> by zero or one.
\<close>

theorem burst_sent_bound:
  assumes "0 < num_clients" and "0 \<le> total_messages"
    and "messages_per_client total_messages num_clients = Some m"
  shows "total_sent (snd (run_threads sched (launch_clients num_clients m envs) initial_state))
           \<le> num_clients * m \<and>
         total_sent (final (run_load_test num_clients m probe_ok envs sched)) \<le> num_clients * m \<and>
         (probe_ok \<and>
          (\<forall>i<nat num_clients. socket_ok (envs i) \<and> connect_ok (envs i) \<and>
             (\<forall>j<nat m. send_ok (envs i) j)) \<longrightarrow>
          total_sent (final (run_load_test num_clients m probe_ok envs sched)) = num_clients * m) \<and>
         (socket_ok env \<and> connect_ok env \<longrightarrow>
          send_attempts (client_worker c m env) = map (\<lambda>j. (Some j, send_ok env j)) [0..<nat m] \<and>
          int (length (send_attempts (client_worker c m env))) = m) \<and>
         sent s \<le> sent (send_iteration c env i s) \<and>
         sent (send_iteration c env i s) \<le> sent s + 1"
proof -
  from assms have m: "m = total_messages div num_clients"
    by (simp add: messages_per_client_def split: if_splits)
  with assms have m0: "0 \<le> m"
    by (simp add: pos_imp_zdiv_nonneg_iff)
  have nm: "int (nat num_clients) * int (nat m) = num_clients * m"
    using assms(1) m0 by simp
  have during: "total_sent (snd (run_threads sched (launch_clients num_clients m envs) initial_state))
      \<le> num_clients * m"
  proof -
    have "total_sent (snd (run_threads sched (launch_clients num_clients m envs) initial_state)) \<le>
        total_sent initial_state +
        sum_list (map (\<lambda>t. sum_list (map ev_sent t)) (launch_clients num_clients m envs))"
      by (rule run_threads_upper)
         (auto simp: exec_event_counters launch_clients_def client_worker_events_nonneg)
    then show ?thesis
      using launch_clients_sent_le [of num_clients m envs] nm
      by (simp add: initial_state_def)
  qed
  have after: "total_sent (final (run_load_test num_clients m probe_ok envs sched)) \<le> num_clients * m"
  proof (cases probe_ok)
    case True
    then show ?thesis
      using launch_clients_sent_le [of num_clients m envs] nm
      by (simp add: burst_final_counters)
  next
    case False
    then show ?thesis
      using assms(1) m0 by (simp add: run_load_test_def initial_state_def)
  qed
  have exact: "probe_ok \<and>
          (\<forall>i<nat num_clients. socket_ok (envs i) \<and> connect_ok (envs i) \<and>
             (\<forall>j<nat m. send_ok (envs i) j)) \<longrightarrow>
          total_sent (final (run_load_test num_clients m probe_ok envs sched)) = num_clients * m"
    using launch_clients_sent_all_ok [of num_clients envs m] nm
    by (auto simp add: burst_final_counters)
  have loop: "socket_ok env \<and> connect_ok env \<longrightarrow>
          send_attempts (client_worker c m env) = map (\<lambda>j. (Some j, send_ok env j)) [0..<nat m] \<and>
          int (length (send_attempts (client_worker c m env))) = m"
    using m0 by (simp add: client_worker_attempts)
  show ?thesis
    using during after exact loop send_iteration_sent_step [of s c env i] by blast
qed

theorem burst_sent_bound_witness:
  "(0::int) < 2 \<and> (0::int) \<le> 5 \<and> messages_per_client 5 2 = Some 2 \<and>
   total_sent (final (run_load_test 2 2 True
     (\<lambda>i. \<lparr>socket_ok = True, connect_ok = True, send_ok = (\<lambda>j. True),
            recv_at = (\<lambda>j. RecvTimeout), close_ok = True\<rparr>) [0, 1, 1, 0])) = 4 \<and>
   total_sent (snd (run_threads [0, 1, 1, 0] (launch_clients 2 2
     (\<lambda>i. \<lparr>socket_ok = True, connect_ok = True, send_ok = (\<lambda>j. True),
            recv_at = (\<lambda>j. RecvTimeout), close_ok = True\<rparr>)) initial_state)) \<le> 4"
proof -
  have h: "messages_per_client 5 2 = Some 2"
    by (simp add: messages_per_client_def)
  show ?thesis
    using h burst_sent_bound [of 2 5 2 "[0, 1, 1, 0]"
        "\<lambda>i. \<lparr>socket_ok = True, connect_ok = True, send_ok = (\<lambda>j. True),
            recv_at = (\<lambda>j. RecvTimeout), close_ok = True\<rparr>" True]
    by simp
qed

section \<open>Results of the burst worker\<close>

lemma published_mem: "r \<in> set (published es) \<longleftrightarrow> QueuePut r \<in> set es"
  by (induction es rule: published.induct) auto

lemma published_Cons: "published (e # es) = published [e] @ published es"
  using published_append [of "[e]" es] by simp

lemma fold_exec_queue:
  "result_queue (fold exec_event es g) = result_queue g @ published es"
proof (induction es arbitrary: g)
  case Nil
  show ?case by simp
next
  case (Cons e es)
  show ?case
    using Cons.IH [of "exec_event e g"] published_Cons [of e es]
    by (simp add: exec_event_queue)
qed

lemma published_concat: "set (published (concat ts)) = (\<Union>t\<in>set ts. set (published t))"
  by (induction ts) (simp_all add: published_append)

lemma execution_queue_origin:
  "r \<in> set (result_queue (join_all (fst (run_threads ks ts g)) (snd (run_threads ks ts g)))) \<Longrightarrow>
   r \<in> set (result_queue g) \<or> (\<exists>t\<in>set ts. r \<in> set (published t))"
proof (induction ks arbitrary: ts g)
  case Nil
  then show ?case
    by (auto simp add: join_all_def fold_exec_queue published_concat)
next
  case (Cons k ks)
  show ?case
  proof (cases "k < length ts")
    case False
    then show ?thesis using Cons.IH [of ts g] Cons.prems by simp
  next
    case True
    show ?thesis
    proof (cases "ts ! k")
      case Nil
      then show ?thesis using True Cons.IH [of ts g] Cons.prems by simp
    next
      case (Cons e es)
      have mem: "e # es \<in> set ts"
        using True Cons by (metis nth_mem)
      have "r \<in> set (result_queue (exec_event e g)) \<or>
            (\<exists>t\<in>set (ts[k := es]). r \<in> set (published t))"
        using Cons.prems True Cons Cons.IH [of "ts[k := es]" "exec_event e g"] by simp
      then show ?thesis
      proof
        assume "r \<in> set (result_queue (exec_event e g))"
        then have "r \<in> set (result_queue g) \<or> r \<in> set (published (e # es))"
          using published_Cons [of e es] by (auto simp add: exec_event_queue)
        then show ?thesis using mem by blast
      next
        assume "\<exists>t\<in>set (ts[k := es]). r \<in> set (published t)"
        then obtain t where t: "t \<in> set (ts[k := es])" and r: "r \<in> set (published t)"
          by blast
        from t have "t = es \<or> t \<in> set ts"
          using set_update_subset_insert [of ts k es] by auto
        then show ?thesis
        proof
          assume "t = es"
          with r have "r \<in> set (published (e # es))"
            using published_Cons [of e es] by simp
          then show ?thesis using mem by blast
        next
          assume "t \<in> set ts"
          then show ?thesis using r by blast
        qed
      qed
    qed
  qed
qed

text \<open>
  C8. Every result a burst worker puts on the queue has \<open>received_count \<le> sent_count\<close>,
  and so has every result found in the queue when \<open>run_load_test\<close> has joined its workers.
\<close>

theorem burst_received_le_sent:
  "(QueuePut r \<in> set (client_worker c m env) \<longrightarrow> res_received r \<le> res_sent r) \<and>
   (r \<in> set (result_queue (final (run_load_test n m probe_ok envs sched))) \<longrightarrow>
      res_received r \<le> res_sent r)"
proof
  show "QueuePut r \<in> set (client_worker c m env) \<longrightarrow> res_received r \<le> res_sent r"
    using client_worker_received_le_sent [of r c m env] by (simp add: published_mem)
next
  show "r \<in> set (result_queue (final (run_load_test n m probe_ok envs sched))) \<longrightarrow>
      res_received r \<le> res_sent r"
  proof
    assume r: "r \<in> set (result_queue (final (run_load_test n m probe_ok envs sched)))"
    then have probe_ok
      by (cases probe_ok) (simp_all add: run_load_test_def initial_state_def)
    with r have "r \<in> set (result_queue initial_state) \<or>
        (\<exists>t\<in>set (launch_clients n m envs). r \<in> set (published t))"
      using execution_queue_origin [of r sched "launch_clients n m envs" initial_state]
      by (simp add: run_load_test_def Let_def)
    then obtain i where "r \<in> set (published (client_worker (int i) m (envs i)))"
      by (auto simp add: initial_state_def launch_clients_def)
    then show "res_received r \<le> res_sent r"
      by (rule client_worker_received_le_sent)
  qed
qed

lemma upt_2: "[0..<2] = [0, Suc 0]"
  by (simp add: numeral_2_eq_2)

theorem burst_received_le_sent_witness:
  "QueuePut (7, 2, 1, 0, 0) \<in> set (client_worker 7 2
      \<lparr>socket_ok = True, connect_ok = True, send_ok = (\<lambda>j. True),
       recv_at = (\<lambda>j. if j = 0 then RecvBytes 3 else RecvTimeout), close_ok = True\<rparr>) \<and>
   res_received (7, 2, 1, 0, 0) \<le> res_sent (7, 2, 1, 0, 0)"
proof -
  have h: "QueuePut (7, 2, 1, 0, 0) \<in> set (client_worker 7 2
      \<lparr>socket_ok = True, connect_ok = True, send_ok = (\<lambda>j. True),
       recv_at = (\<lambda>j. if j = 0 then RecvBytes 3 else RecvTimeout), close_ok = True\<rparr>)"
    by (simp add: client_worker_def send_loop_def send_iteration_def worker_start_def upt_2)
  show ?thesis
    using h burst_received_le_sent [of "(7, 2, 1, 0, 0)" 7 2
      "\<lparr>socket_ok = True, connect_ok = True, send_ok = (\<lambda>j. True),
       recv_at = (\<lambda>j. if j = 0 then RecvBytes 3 else RecvTimeout), close_ok = True\<rparr>"]
    by blast
qed

section \<open>Failures and acknowledgments in the loops\<close>

lemma send_iteration_recv_attempts:
  "recv_attempts (trace (send_iteration c env i s)) =
     recv_attempts (trace s) @ (if send_ok env i then [recv_at env i] else [])"
  by (rule send_iteration_cases [of env i c s]) (auto simp add: recv_attempts_append)

lemma send_loop_all_timeout:
  "(\<forall>j<n. send_ok env j \<and> recv_at env j = RecvTimeout) \<Longrightarrow>
   sent (send_loop c env n s) = sent s + int n \<and>
   received (send_loop c env n s) = received s \<and>
   failed_send (send_loop c env n s) = failed_send s"
proof (induction n)
  case 0
  show ?case by (simp add: send_loop_0)
next
  case (Suc n)
  then have ih: "sent (send_loop c env n s) = sent s + int n \<and>
      received (send_loop c env n s) = received s \<and>
      failed_send (send_loop c env n s) = failed_send s"
    and ok: "send_ok env n" "recv_at env n = RecvTimeout"
    by simp_all
  show ?case
    using ih ok by (simp add: send_loop_Suc send_iteration_def)
qed

lemma send_loop_all_recv_error:
  "(\<forall>j<n. send_ok env j \<and> recv_at env j = RecvError) \<Longrightarrow>
   sent (send_loop c env n s) = sent s + int n \<and>
   received (send_loop c env n s) = received s \<and>
   failed_send (send_loop c env n s) = failed_send s + int n"
proof (induction n)
  case 0
  show ?case by (simp add: send_loop_0)
next
  case (Suc n)
  then have ih: "sent (send_loop c env n s) = sent s + int n \<and>
      received (send_loop c env n s) = received s \<and>
      failed_send (send_loop c env n s) = failed_send s + int n"
    and ok: "send_ok env n" "recv_at env n = RecvError"
    by simp_all
  show ?case
    using ih ok by (simp add: send_loop_Suc send_iteration_def)
qed

lemma client_worker_published:
  "socket_ok env \<Longrightarrow> connect_ok env \<Longrightarrow>
   published (client_worker c m env) =
     [(c, sent (send_loop c env (nat m) worker_start),
       received (send_loop c env (nat m) worker_start), 0,
       failed_send (send_loop c env (nat m) worker_start))]"
  using loop_from_start [of c env "nat m"]
  by (simp add: client_worker_def Let_def published_append)

lemma sustained_loop_first_failure:
  "sustained_loop c (replicate k True @ False # rest) =
     concat (replicate k [SockSend c None True, UpdateStats 1 0 0 0, Sleep]) @
     [SockSend c None False, UpdateStats 0 0 0 1]"
  by (induction k) simp_all

lemma send_attempts_successes:
  "send_attempts (concat (replicate k [SockSend c None True, UpdateStats 1 0 0 0, Sleep])) =
     replicate k (None, True)"
  by (induction k) simp_all

lemma failed_send_successes:
  "sum_list (map ev_failed_send
     (concat (replicate k [SockSend c None True, UpdateStats 1 0 0 0, Sleep]))) = 0"
  by (induction k) simp_all

lemma fold_exec_counters:
  "total_sent (fold exec_event es g) = total_sent g + sum_list (map ev_sent es)"
  "total_received (fold exec_event es g) = total_received g + sum_list (map ev_received es)"
  "failed_connections (fold exec_event es g) =
     failed_connections g + sum_list (map ev_failed_conn es)"
  "failed_sends (fold exec_event es g) = failed_sends g + sum_list (map ev_failed_send es)"
  using fold_exec_additive [of total_sent ev_sent es g]
    fold_exec_additive [of total_received ev_received es g]
    fold_exec_additive [of failed_connections ev_failed_conn es g]
    fold_exec_additive [of failed_sends ev_failed_send es g]
  by (simp_all add: exec_event_counters)

lemma sent_successes:
  "sum_list (map ev_sent
     (concat (replicate k [SockSend c None True, UpdateStats 1 0 0 0, Sleep]))) = int k"
  by (induction k) simp_all

lemma client_worker_shared:
  "total_sent (fold exec_event (client_worker c m env) g) =
     total_sent g + sum_list (map res_sent (published (client_worker c m env)))"
  "total_received (fold exec_event (client_worker c m env) g) =
     total_received g + sum_list (map res_received (published (client_worker c m env)))"
  "failed_connections (fold exec_event (client_worker c m env) g) =
     failed_connections g + sum_list (map res_failed_conn (published (client_worker c m env)))"
  "failed_sends (fold exec_event (client_worker c m env) g) =
     failed_sends g + sum_list (map res_failed_send (published (client_worker c m env)))"
  using client_worker_totals [of c m env]
  by (simp_all add: fold_exec_counters)

text \<open>
  C5. A \<open>sendall\<close> that raises on an established connection is counted once: the pass of
  the loop adds one to \<open>failed_send\<close> and makes the one call \<open>update_stats(failed_send=1)\<close>,
  so the events of the pass, run on any shared state, raise the shared \<open>failed_sends\<close> by
  exactly one and leave the other three counters alone.
  In burst mode the loop goes on: a connected worker still attempts the send of every index
  below its message count, in order, whatever failed before. In sustained mode the first
  failing send is the last send of the worker: what the network would have done to later
  sends does not matter, the failure is counted once and the trace ends with the close; on
  the shared state the worker's events raise \<open>failed_sends\<close> by exactly one and
  \<open>total_sent\<close> by the number of sends that succeeded before.
\<close>

theorem send_failure_burst_continues_sustained_stops:
  "(\<not> send_ok env i \<longrightarrow>
      send_iteration c env i s =
        s\<lparr>failed_send := failed_send s + 1,
          trace := trace s @ [SockSend c (Some i) False, UpdateStats 0 0 0 1]\<rparr>) \<and>
   (socket_ok env \<and> connect_ok env \<and> \<not> send_ok env i \<and> i < nat m \<longrightarrow>
      send_attempts (client_worker c m env) = map (\<lambda>j. (Some j, send_ok env j)) [0..<nat m] \<and>
      (\<forall>j. i < j \<and> j < nat m \<longrightarrow>
         (Some j, send_ok env j) \<in> set (send_attempts (client_worker c m env)))) \<and>
   sustained_loop c (replicate k True @ False # rest) =
     concat (replicate k [SockSend c None True, UpdateStats 1 0 0 0, Sleep]) @
     [SockSend c None False, UpdateStats 0 0 0 1] \<and>
   (s_socket_ok senv \<and> s_connect_ok senv \<and> s_sends senv = replicate k True @ False # rest \<longrightarrow>
      send_attempts (sustained_client_worker c senv) = replicate k (None, True) @ [(None, False)] \<and>
      sum_list (map ev_failed_send (sustained_client_worker c senv)) = 1) \<and>
   (\<not> send_ok env i \<longrightarrow>
      failed_sends (fold exec_event
        (drop (length (trace s)) (trace (send_iteration c env i s))) g) = failed_sends g + 1 \<and>
      total_sent (fold exec_event
        (drop (length (trace s)) (trace (send_iteration c env i s))) g) = total_sent g \<and>
      total_received (fold exec_event
        (drop (length (trace s)) (trace (send_iteration c env i s))) g) = total_received g \<and>
      failed_connections (fold exec_event
        (drop (length (trace s)) (trace (send_iteration c env i s))) g) =
        failed_connections g) \<and>
   failed_sends (fold exec_event (sustained_loop c (replicate k True @ False # rest)) g) =
     failed_sends g + 1 \<and>
   total_sent (fold exec_event (sustained_loop c (replicate k True @ False # rest)) g) =
     total_sent g + int k \<and>
   (s_socket_ok senv \<and> s_connect_ok senv \<and> s_sends senv = replicate k True @ False # rest \<longrightarrow>
      failed_sends (fold exec_event (sustained_client_worker c senv) g) = failed_sends g + 1 \<and>
      total_sent (fold exec_event (sustained_client_worker c senv) g) = total_sent g + int k)"
proof -
  have one: "\<not> send_ok env i \<longrightarrow>
      send_iteration c env i s =
        s\<lparr>failed_send := failed_send s + 1,
          trace := trace s @ [SockSend c (Some i) False, UpdateStats 0 0 0 1]\<rparr>"
    by (simp add: send_iteration_def)
  have burst: "socket_ok env \<and> connect_ok env \<and> \<not> send_ok env i \<and> i < nat m \<longrightarrow>
      send_attempts (client_worker c m env) = map (\<lambda>j. (Some j, send_ok env j)) [0..<nat m] \<and>
      (\<forall>j. i < j \<and> j < nat m \<longrightarrow>
         (Some j, send_ok env j) \<in> set (send_attempts (client_worker c m env)))"
    by (auto simp add: client_worker_attempts)
  have sust: "s_socket_ok senv \<and> s_connect_ok senv \<and>
      s_sends senv = replicate k True @ False # rest \<longrightarrow>
      send_attempts (sustained_client_worker c senv) = replicate k (None, True) @ [(None, False)] \<and>
      sum_list (map ev_failed_send (sustained_client_worker c senv)) = 1"
    by (simp add: sustained_client_worker_def sustained_loop_first_failure
        send_attempts_append send_attempts_successes failed_send_successes)
  have shared_burst: "\<not> send_ok env i \<longrightarrow>
      failed_sends (fold exec_event
        (drop (length (trace s)) (trace (send_iteration c env i s))) g) = failed_sends g + 1 \<and>
      total_sent (fold exec_event
        (drop (length (trace s)) (trace (send_iteration c env i s))) g) = total_sent g \<and>
      total_received (fold exec_event
        (drop (length (trace s)) (trace (send_iteration c env i s))) g) = total_received g \<and>
      failed_connections (fold exec_event
        (drop (length (trace s)) (trace (send_iteration c env i s))) g) =
        failed_connections g"
    by (simp add: send_iteration_def update_stats_def)
  have shared_loop: "failed_sends (fold exec_event
        (sustained_loop c (replicate k True @ False # rest)) g) = failed_sends g + 1 \<and>
      total_sent (fold exec_event (sustained_loop c (replicate k True @ False # rest)) g) =
        total_sent g + int k"
    by (simp only: fold_exec_counters)
       (simp add: sustained_loop_first_failure failed_send_successes sent_successes)
  have shared_sust: "s_socket_ok senv \<and> s_connect_ok senv \<and>
      s_sends senv = replicate k True @ False # rest \<longrightarrow>
      failed_sends (fold exec_event (sustained_client_worker c senv) g) = failed_sends g + 1 \<and>
      total_sent (fold exec_event (sustained_client_worker c senv) g) = total_sent g + int k"
    by (simp only: fold_exec_counters)
       (simp add: sustained_client_worker_def sustained_loop_first_failure
          failed_send_successes sent_successes)
  show ?thesis
    using one burst sust sustained_loop_first_failure [of c k rest]
      shared_burst shared_loop shared_sust
    by blast
qed

theorem send_failure_burst_continues_sustained_stops_witness:
  "\<not> send_ok \<lparr>socket_ok = True, connect_ok = True, send_ok = (\<lambda>j. j \<noteq> 1),
       recv_at = (\<lambda>j. RecvTimeout), close_ok = True\<rparr> 1 \<and>
   (1::nat) < nat 3 \<and>
   send_attempts (client_worker 0 3
     \<lparr>socket_ok = True, connect_ok = True, send_ok = (\<lambda>j. j \<noteq> 1),
      recv_at = (\<lambda>j. RecvTimeout), close_ok = True\<rparr>) =
     [(Some 0, True), (Some 1, False), (Some 2, True)] \<and>
   s_sends \<lparr>s_socket_ok = True, s_connect_ok = True, s_sends = [True, False, True],
      s_close_ok = True\<rparr> = replicate 1 True @ False # [True] \<and>
   send_attempts (sustained_client_worker 0
     \<lparr>s_socket_ok = True, s_connect_ok = True, s_sends = [True, False, True],
      s_close_ok = True\<rparr>) = [(None, True), (None, False)] \<and>
   sum_list (map ev_failed_send (sustained_client_worker 0
     \<lparr>s_socket_ok = True, s_connect_ok = True, s_sends = [True, False, True],
      s_close_ok = True\<rparr>)) = 1 \<and>
   failed_sends (fold exec_event
     (drop (length (trace worker_start)) (trace (send_iteration 0
        \<lparr>socket_ok = True, connect_ok = True, send_ok = (\<lambda>j. j \<noteq> 1),
         recv_at = (\<lambda>j. RecvTimeout), close_ok = True\<rparr> 1 worker_start)))
     initial_state) = 1 \<and>
   failed_sends (fold exec_event (sustained_client_worker 0
     \<lparr>s_socket_ok = True, s_connect_ok = True, s_sends = [True, False, True],
      s_close_ok = True\<rparr>) initial_state) = 1 \<and>
   total_sent (fold exec_event (sustained_client_worker 0
     \<lparr>s_socket_ok = True, s_connect_ok = True, s_sends = [True, False, True],
      s_close_ok = True\<rparr>) initial_state) = 1"
  using send_failure_burst_continues_sustained_stops [where
      env = "\<lparr>socket_ok = True, connect_ok = True, send_ok = (\<lambda>j. j \<noteq> 1),
        recv_at = (\<lambda>j. RecvTimeout), close_ok = True\<rparr>" and i = 1 and c = 0
      and s = worker_start and m = 3 and k = 1 and rest = "[True]" and g = initial_state and
      senv = "\<lparr>s_socket_ok = True, s_connect_ok = True, s_sends = [True, False, True],
        s_close_ok = True\<rparr>"]
  by (simp add: upt_conv_Cons initial_state_def update_stats_def)

text \<open>
  C6. After a successful \<open>sendall\<close> the pass of the loop reads once from the socket, and a
  pass whose send failed does not read. When the read returns bytes, \<open>received\<close> goes up by
  one with one call \<open>update_stats(received=1)\<close>: the events of the pass, run on any shared
  state, raise the shared \<open>total_received\<close> by exactly one (and \<open>total_sent\<close> by one, for
  the send). When the read times out, nothing but the send is counted: neither
  \<open>failed_send\<close> nor any shared failure counter moves, nor does \<open>total_received\<close>. Either
  way the pass ends with the pacing sleep and the loop goes on to the next index, so a
  connected worker attempts every send; a worker whose reads all time out reports every
  message as sent, none received and no failure, and that is what its events do to the
  shared counters.
\<close>

theorem ack_read_once_timeout_ignored:
  "recv_attempts (trace (send_iteration c env i s)) =
     recv_attempts (trace s) @ (if send_ok env i then [recv_at env i] else []) \<and>
   (send_ok env i \<and> recv_at env i = RecvBytes n \<and> n \<noteq> 0 \<longrightarrow>
      send_iteration c env i s =
        s\<lparr>sent := sent s + 1, received := received s + 1,
          trace := trace s @
            [SockSend c (Some i) True, UpdateStats 1 0 0 0,
             SockRecv (RecvBytes n), UpdateStats 0 1 0 0, Sleep]\<rparr>) \<and>
   (send_ok env i \<and> recv_at env i = RecvTimeout \<longrightarrow>
      send_iteration c env i s =
        s\<lparr>sent := sent s + 1,
          trace := trace s @
            [SockSend c (Some i) True, UpdateStats 1 0 0 0, SockRecv RecvTimeout, Sleep]\<rparr>) \<and>
   (socket_ok env \<and> connect_ok env \<longrightarrow>
      send_attempts (client_worker c m env) = map (\<lambda>j. (Some j, send_ok env j)) [0..<nat m]) \<and>
   (socket_ok env \<and> connect_ok env \<and>
    (\<forall>j<nat m. send_ok env j \<and> recv_at env j = RecvTimeout) \<longrightarrow>
      published (client_worker c m env) = [(c, int (nat m), 0, 0, 0)] \<and>
      sum_list (map ev_failed_send (client_worker c m env)) = 0 \<and>
      sum_list (map ev_failed_conn (client_worker c m env)) = 0) \<and>
   (send_ok env i \<and> recv_at env i = RecvBytes n \<and> n \<noteq> 0 \<longrightarrow>
      total_received (fold exec_event
        (drop (length (trace s)) (trace (send_iteration c env i s))) g) =
        total_received g + 1 \<and>
      total_sent (fold exec_event
        (drop (length (trace s)) (trace (send_iteration c env i s))) g) = total_sent g + 1 \<and>
      failed_connections (fold exec_event
        (drop (length (trace s)) (trace (send_iteration c env i s))) g) =
        failed_connections g \<and>
      failed_sends (fold exec_event
        (drop (length (trace s)) (trace (send_iteration c env i s))) g) = failed_sends g) \<and>
   (send_ok env i \<and> recv_at env i = RecvTimeout \<longrightarrow>
      total_received (fold exec_event
        (drop (length (trace s)) (trace (send_iteration c env i s))) g) = total_received g \<and>
      total_sent (fold exec_event
        (drop (length (trace s)) (trace (send_iteration c env i s))) g) = total_sent g + 1 \<and>
      failed_connections (fold exec_event
        (drop (length (trace s)) (trace (send_iteration c env i s))) g) =
        failed_connections g \<and>
      failed_sends (fold exec_event
        (drop (length (trace s)) (trace (send_iteration c env i s))) g) = failed_sends g) \<and>
   (socket_ok env \<and> connect_ok env \<and>
    (\<forall>j<nat m. send_ok env j \<and> recv_at env j = RecvTimeout) \<longrightarrow>
      total_sent (fold exec_event (client_worker c m env) g) = total_sent g + int (nat m) \<and>
      total_received (fold exec_event (client_worker c m env) g) = total_received g \<and>
      failed_connections (fold exec_event (client_worker c m env) g) = failed_connections g \<and>
      failed_sends (fold exec_event (client_worker c m env) g) = failed_sends g)"
proof -
  have acked: "send_ok env i \<and> recv_at env i = RecvBytes n \<and> n \<noteq> 0 \<longrightarrow>
      send_iteration c env i s =
        s\<lparr>sent := sent s + 1, received := received s + 1,
          trace := trace s @
            [SockSend c (Some i) True, UpdateStats 1 0 0 0,
             SockRecv (RecvBytes n), UpdateStats 0 1 0 0, Sleep]\<rparr>"
    by (simp add: send_iteration_def)
  have timeout: "send_ok env i \<and> recv_at env i = RecvTimeout \<longrightarrow>
      send_iteration c env i s =
        s\<lparr>sent := sent s + 1,
          trace := trace s @
            [SockSend c (Some i) True, UpdateStats 1 0 0 0, SockRecv RecvTimeout, Sleep]\<rparr>"
    by (simp add: send_iteration_def)
  have goes_on: "socket_ok env \<and> connect_ok env \<longrightarrow>
      send_attempts (client_worker c m env) = map (\<lambda>j. (Some j, send_ok env j)) [0..<nat m]"
    by (simp add: client_worker_attempts)
  have pub: "published (client_worker c m env) = [(c, int (nat m), 0, 0, 0)]"
    if a: "socket_ok env \<and> connect_ok env \<and>
      (\<forall>j<nat m. send_ok env j \<and> recv_at env j = RecvTimeout)"
  proof -
    have loop: "sent (send_loop c env (nat m) worker_start) = int (nat m) \<and>
        received (send_loop c env (nat m) worker_start) = 0 \<and>
        failed_send (send_loop c env (nat m) worker_start) = 0"
      using a send_loop_all_timeout [of "nat m" env c worker_start]
      by (simp add: worker_start_fields del: int_nat_eq)
    show ?thesis
      using a loop client_worker_published [of env c m] by (simp del: int_nat_eq)
  qed
  have silent: "socket_ok env \<and> connect_ok env \<and>
    (\<forall>j<nat m. send_ok env j \<and> recv_at env j = RecvTimeout) \<longrightarrow>
      published (client_worker c m env) = [(c, int (nat m), 0, 0, 0)] \<and>
      sum_list (map ev_failed_send (client_worker c m env)) = 0 \<and>
      sum_list (map ev_failed_conn (client_worker c m env)) = 0"
    using pub client_worker_totals [of c m env]
    by (simp add: res_failed_send_def res_failed_conn_def del: int_nat_eq)
  have shared_acked: "send_ok env i \<and> recv_at env i = RecvBytes n \<and> n \<noteq> 0 \<longrightarrow>
      total_received (fold exec_event
        (drop (length (trace s)) (trace (send_iteration c env i s))) g) =
        total_received g + 1 \<and>
      total_sent (fold exec_event
        (drop (length (trace s)) (trace (send_iteration c env i s))) g) = total_sent g + 1 \<and>
      failed_connections (fold exec_event
        (drop (length (trace s)) (trace (send_iteration c env i s))) g) =
        failed_connections g \<and>
      failed_sends (fold exec_event
        (drop (length (trace s)) (trace (send_iteration c env i s))) g) = failed_sends g"
    by (simp add: send_iteration_def update_stats_def)
  have shared_timeout: "send_ok env i \<and> recv_at env i = RecvTimeout \<longrightarrow>
      total_received (fold exec_event
        (drop (length (trace s)) (trace (send_iteration c env i s))) g) = total_received g \<and>
      total_sent (fold exec_event
        (drop (length (trace s)) (trace (send_iteration c env i s))) g) = total_sent g + 1 \<and>
      failed_connections (fold exec_event
        (drop (length (trace s)) (trace (send_iteration c env i s))) g) =
        failed_connections g \<and>
      failed_sends (fold exec_event
        (drop (length (trace s)) (trace (send_iteration c env i s))) g) = failed_sends g"
    by (simp add: send_iteration_def update_stats_def)
  have shared_silent: "socket_ok env \<and> connect_ok env \<and>
    (\<forall>j<nat m. send_ok env j \<and> recv_at env j = RecvTimeout) \<longrightarrow>
      total_sent (fold exec_event (client_worker c m env) g) = total_sent g + int (nat m) \<and>
      total_received (fold exec_event (client_worker c m env) g) = total_received g \<and>
      failed_connections (fold exec_event (client_worker c m env) g) = failed_connections g \<and>
      failed_sends (fold exec_event (client_worker c m env) g) = failed_sends g"
    using pub
    by (simp add: client_worker_shared res_sent_def res_received_def res_failed_conn_def
        res_failed_send_def del: int_nat_eq)
  show ?thesis
    using send_iteration_recv_attempts [of c env i s] acked timeout goes_on silent
      shared_acked shared_timeout shared_silent
    by blast
qed

theorem ack_read_once_timeout_ignored_witness:
  "send_ok \<lparr>socket_ok = True, connect_ok = True, send_ok = (\<lambda>j. True),
       recv_at = (\<lambda>j. RecvTimeout), close_ok = True\<rparr> 0 \<and>
   recv_at \<lparr>socket_ok = True, connect_ok = True, send_ok = (\<lambda>j. True),
       recv_at = (\<lambda>j. RecvTimeout), close_ok = True\<rparr> 0 = RecvTimeout \<and>
   send_iteration 4 \<lparr>socket_ok = True, connect_ok = True, send_ok = (\<lambda>j. True),
       recv_at = (\<lambda>j. RecvTimeout), close_ok = True\<rparr> 0 worker_start =
     worker_start\<lparr>sent := sent worker_start + 1,
       trace := trace worker_start @
         [SockSend 4 (Some 0) True, UpdateStats 1 0 0 0, SockRecv RecvTimeout, Sleep]\<rparr> \<and>
   published (client_worker 4 3 \<lparr>socket_ok = True, connect_ok = True, send_ok = (\<lambda>j. True),
       recv_at = (\<lambda>j. RecvTimeout), close_ok = True\<rparr>) = [(4, 3, 0, 0, 0)] \<and>
   send_iteration 4 \<lparr>socket_ok = True, connect_ok = True, send_ok = (\<lambda>j. True),
       recv_at = (\<lambda>j. RecvBytes 2), close_ok = True\<rparr> 0 worker_start =
     worker_start\<lparr>sent := sent worker_start + 1, received := received worker_start + 1,
       trace := trace worker_start @
         [SockSend 4 (Some 0) True, UpdateStats 1 0 0 0, SockRecv (RecvBytes 2),
          UpdateStats 0 1 0 0, Sleep]\<rparr> \<and>
   total_received (fold exec_event
     (drop (length (trace worker_start)) (trace (send_iteration 4
        \<lparr>socket_ok = True, connect_ok = True, send_ok = (\<lambda>j. True),
         recv_at = (\<lambda>j. RecvBytes 2), close_ok = True\<rparr> 0 worker_start)))
     initial_state) = 1 \<and>
   total_received (fold exec_event
     (drop (length (trace worker_start)) (trace (send_iteration 4
        \<lparr>socket_ok = True, connect_ok = True, send_ok = (\<lambda>j. True),
         recv_at = (\<lambda>j. RecvTimeout), close_ok = True\<rparr> 0 worker_start)))
     initial_state) = 0 \<and>
   failed_sends (fold exec_event
     (drop (length (trace worker_start)) (trace (send_iteration 4
        \<lparr>socket_ok = True, connect_ok = True, send_ok = (\<lambda>j. True),
         recv_at = (\<lambda>j. RecvTimeout), close_ok = True\<rparr> 0 worker_start)))
     initial_state) = 0 \<and>
   total_sent (fold exec_event (client_worker 4 3
       \<lparr>socket_ok = True, connect_ok = True, send_ok = (\<lambda>j. True),
        recv_at = (\<lambda>j. RecvTimeout), close_ok = True\<rparr>) initial_state) = 3"
  using ack_read_once_timeout_ignored [where c = 4 and
      env = "\<lparr>socket_ok = True, connect_ok = True, send_ok = (\<lambda>j. True),
        recv_at = (\<lambda>j. RecvTimeout), close_ok = True\<rparr>" and i = 0 and s = worker_start
      and n = 1 and m = 3 and g = initial_state]
    ack_read_once_timeout_ignored [where c = 4 and
      env = "\<lparr>socket_ok = True, connect_ok = True, send_ok = (\<lambda>j. True),
        recv_at = (\<lambda>j. RecvBytes 2), close_ok = True\<rparr>" and i = 0 and s = worker_start
      and n = 2 and m = 3 and g = initial_state]
  by (simp add: initial_state_def update_stats_def)

text \<open>
  C10. A \<open>recv\<close> that raises anything but a timeout is caught by the handler of the whole
  pass: the pass has already counted the send, and now counts a failed send too, so its
  events, run on any shared state, raise both the shared \<open>total_sent\<close> and the shared
  \<open>failed_sends\<close> by exactly one. A worker all of whose reads fail in this way reports its
  message count both as sent and as failed sends, and adds it to both shared counters, so
  \<open>sent_count + failed_send_count\<close> is twice the message count, above it as soon as there
  is one message.
\<close>

theorem recv_error_counts_failed_send:
  "(send_ok env i \<and> recv_at env i = RecvError \<longrightarrow>
      send_iteration c env i s =
        s\<lparr>sent := sent s + 1, failed_send := failed_send s + 1,
          trace := trace s @
            [SockSend c (Some i) True, UpdateStats 1 0 0 0,
             SockRecv RecvError, UpdateStats 0 0 0 1]\<rparr>) \<and>
   (socket_ok env \<and> connect_ok env \<and>
    (\<forall>j<nat m. send_ok env j \<and> recv_at env j = RecvError) \<longrightarrow>
      published (client_worker c m env) = [(c, int (nat m), 0, 0, int (nat m))]) \<and>
   (0 < m \<longrightarrow>
      (\<exists>env' r. published (client_worker c m env') = [r] \<and>
         m < res_sent r + res_failed_send r)) \<and>
   (send_ok env i \<and> recv_at env i = RecvError \<longrightarrow>
      total_sent (fold exec_event
        (drop (length (trace s)) (trace (send_iteration c env i s))) g) = total_sent g + 1 \<and>
      failed_sends (fold exec_event
        (drop (length (trace s)) (trace (send_iteration c env i s))) g) = failed_sends g + 1 \<and>
      total_received (fold exec_event
        (drop (length (trace s)) (trace (send_iteration c env i s))) g) = total_received g \<and>
      failed_connections (fold exec_event
        (drop (length (trace s)) (trace (send_iteration c env i s))) g) =
        failed_connections g) \<and>
   (socket_ok env \<and> connect_ok env \<and>
    (\<forall>j<nat m. send_ok env j \<and> recv_at env j = RecvError) \<longrightarrow>
      total_sent (fold exec_event (client_worker c m env) g) = total_sent g + int (nat m) \<and>
      failed_sends (fold exec_event (client_worker c m env) g) =
        failed_sends g + int (nat m))"
proof -
  have step: "send_ok env i \<and> recv_at env i = RecvError \<longrightarrow>
      send_iteration c env i s =
        s\<lparr>sent := sent s + 1, failed_send := failed_send s + 1,
          trace := trace s @
            [SockSend c (Some i) True, UpdateStats 1 0 0 0,
             SockRecv RecvError, UpdateStats 0 0 0 1]\<rparr>"
    by (simp add: send_iteration_def)
  have all: "socket_ok e \<and> connect_ok e \<and>
    (\<forall>j<nat m. send_ok e j \<and> recv_at e j = RecvError) \<longrightarrow>
      published (client_worker c m e) = [(c, int (nat m), 0, 0, int (nat m))]" for e
  proof
    assume a: "socket_ok e \<and> connect_ok e \<and>
      (\<forall>j<nat m. send_ok e j \<and> recv_at e j = RecvError)"
    then have "sent (send_loop c e (nat m) worker_start) = int (nat m) \<and>
        received (send_loop c e (nat m) worker_start) = 0 \<and>
        failed_send (send_loop c e (nat m) worker_start) = int (nat m)"
      using send_loop_all_recv_error [of "nat m" e c worker_start]
      by (simp add: worker_start_fields del: int_nat_eq)
    then show "published (client_worker c m e) = [(c, int (nat m), 0, 0, int (nat m))]"
      using a client_worker_published [of e c m] by (simp del: int_nat_eq)
  qed
  have exceed: "0 < m \<longrightarrow>
      (\<exists>env' r. published (client_worker c m env') = [r] \<and>
         m < res_sent r + res_failed_send r)"
  proof
    assume m: "0 < m"
    let ?e = "\<lparr>socket_ok = True, connect_ok = True, send_ok = (\<lambda>j. True),
        recv_at = (\<lambda>j. RecvError), close_ok = True\<rparr>"
    have "published (client_worker c m ?e) = [(c, int (nat m), 0, 0, int (nat m))]"
      using all [of ?e] by simp
    moreover have "m < res_sent (c, int (nat m), 0, 0, int (nat m)) +
        res_failed_send (c, int (nat m), 0, 0, int (nat m))"
      using m by (simp add: res_sent_def res_failed_send_def)
    ultimately show "\<exists>env' r. published (client_worker c m env') = [r] \<and>
         m < res_sent r + res_failed_send r"
      by blast
  qed
  have shared_step: "send_ok env i \<and> recv_at env i = RecvError \<longrightarrow>
      total_sent (fold exec_event
        (drop (length (trace s)) (trace (send_iteration c env i s))) g) = total_sent g + 1 \<and>
      failed_sends (fold exec_event
        (drop (length (trace s)) (trace (send_iteration c env i s))) g) = failed_sends g + 1 \<and>
      total_received (fold exec_event
        (drop (length (trace s)) (trace (send_iteration c env i s))) g) = total_received g \<and>
      failed_connections (fold exec_event
        (drop (length (trace s)) (trace (send_iteration c env i s))) g) =
        failed_connections g"
    by (simp add: send_iteration_def update_stats_def)
  have shared_all: "socket_ok env \<and> connect_ok env \<and>
    (\<forall>j<nat m. send_ok env j \<and> recv_at env j = RecvError) \<longrightarrow>
      total_sent (fold exec_event (client_worker c m env) g) = total_sent g + int (nat m) \<and>
      failed_sends (fold exec_event (client_worker c m env) g) =
        failed_sends g + int (nat m)"
    using all [of env]
    by (simp add: client_worker_shared res_sent_def res_failed_send_def del: int_nat_eq)
  show ?thesis
    using step all [of env] exceed shared_step shared_all by blast
qed

theorem recv_error_counts_failed_send_witness:
  "send_ok \<lparr>socket_ok = True, connect_ok = True, send_ok = (\<lambda>j. True),
       recv_at = (\<lambda>j. RecvError), close_ok = True\<rparr> 0 \<and>
   recv_at \<lparr>socket_ok = True, connect_ok = True, send_ok = (\<lambda>j. True),
       recv_at = (\<lambda>j. RecvError), close_ok = True\<rparr> 0 = RecvError \<and>
   send_iteration 0 \<lparr>socket_ok = True, connect_ok = True, send_ok = (\<lambda>j. True),
       recv_at = (\<lambda>j. RecvError), close_ok = True\<rparr> 0 worker_start =
     worker_start\<lparr>sent := sent worker_start + 1, failed_send := failed_send worker_start + 1,
       trace := trace worker_start @
         [SockSend 0 (Some 0) True, UpdateStats 1 0 0 0, SockRecv RecvError,
          UpdateStats 0 0 0 1]\<rparr> \<and>
   published (client_worker 0 1 \<lparr>socket_ok = True, connect_ok = True, send_ok = (\<lambda>j. True),
       recv_at = (\<lambda>j. RecvError), close_ok = True\<rparr>) = [(0, 1, 0, 0, 1)] \<and>
   (1::int) < res_sent (0, 1, 0, 0, 1) + res_failed_send (0, 1, 0, 0, 1) \<and>
   total_sent (fold exec_event
     (drop (length (trace worker_start)) (trace (send_iteration 0
        \<lparr>socket_ok = True, connect_ok = True, send_ok = (\<lambda>j. True),
         recv_at = (\<lambda>j. RecvError), close_ok = True\<rparr> 0 worker_start)))
     initial_state) = 1 \<and>
   failed_sends (fold exec_event
     (drop (length (trace worker_start)) (trace (send_iteration 0
        \<lparr>socket_ok = True, connect_ok = True, send_ok = (\<lambda>j. True),
         recv_at = (\<lambda>j. RecvError), close_ok = True\<rparr> 0 worker_start)))
     initial_state) = 1 \<and>
   total_sent (fold exec_event (client_worker 0 1
       \<lparr>socket_ok = True, connect_ok = True, send_ok = (\<lambda>j. True),
        recv_at = (\<lambda>j. RecvError), close_ok = True\<rparr>) initial_state) = 1 \<and>
   failed_sends (fold exec_event (client_worker 0 1
       \<lparr>socket_ok = True, connect_ok = True, send_ok = (\<lambda>j. True),
        recv_at = (\<lambda>j. RecvError), close_ok = True\<rparr>) initial_state) = 1"
  using recv_error_counts_failed_send [where
      env = "\<lparr>socket_ok = True, connect_ok = True, send_ok = (\<lambda>j. True),
        recv_at = (\<lambda>j. RecvError), close_ok = True\<rparr>" and i = 0 and c = 0
      and s = worker_start and m = 1 and g = initial_state]
  by (simp add: res_sent_def res_failed_send_def initial_state_def update_stats_def)

section \<open>Results and the connectivity test in the two modes\<close>

lemma sustained_loop_published: "published (sustained_loop c oks) = []"
  by (induction oks) simp_all

lemma sustained_worker_published: "published (sustained_client_worker c env) = []"
  by (simp add: sustained_client_worker_def published_append sustained_loop_published)

lemma sustained_queue_empty:
  "result_queue (final (run_sustained_load_test n envs sched)) = []"
proof -
  have "r \<notin> set (result_queue (final (run_sustained_load_test n envs sched)))" for r
  proof
    assume "r \<in> set (result_queue (final (run_sustained_load_test n envs sched)))"
    then have "r \<in> set (result_queue initial_state) \<or>
        (\<exists>t\<in>set (launch_sustained n envs). r \<in> set (published t))"
      using execution_queue_origin [of r sched "launch_sustained n envs" initial_state]
      by (simp add: run_sustained_load_test_def Let_def)
    then show False
      by (auto simp add: initial_state_def launch_sustained_def sustained_worker_published)
  qed
  then show ?thesis
    by (metis list.set_intros(1) neq_Nil_conv)
qed

text \<open>
  In burst mode the worker puts exactly one result in every case, and the run ends with
  one result per client in the queue.
\<close>

lemma burst_worker_one_result:
  "length (published (client_worker c m env)) = 1 \<and>
   length (result_queue (final (run_load_test n m True envs sched))) = nat n"
  by (simp add: client_worker_published_length burst_final_queue_length)

text \<open>
  C2. The sustained worker never puts anything on the result queue it is given: for
  every outcome of its socket operations its trace has no \<open>put\<close>, and a sustained run ends
  with an empty queue, whatever the number of workers. Shown also on a worker that
  connects, sends twice and closes.
\<close>

theorem sustained_worker_puts_no_result:
  "published (sustained_client_worker c env) = [] \<and>
   result_queue (final (run_sustained_load_test n envs sched)) = [] \<and>
   sustained_client_worker 0
     \<lparr>s_socket_ok = True, s_connect_ok = True, s_sends = [True, True], s_close_ok = True\<rparr> =
     [SockConnect True, SockSend 0 None True, UpdateStats 1 0 0 0, Sleep,
      SockSend 0 None True, UpdateStats 1 0 0 0, Sleep, SockClose True] \<and>
   result_queue (final (run_sustained_load_test 1
     (\<lambda>i. \<lparr>s_socket_ok = True, s_connect_ok = True, s_sends = [True, True],
            s_close_ok = True\<rparr>) [0, 0])) = []"
proof -
  have "sustained_client_worker 0
     \<lparr>s_socket_ok = True, s_connect_ok = True, s_sends = [True, True], s_close_ok = True\<rparr> =
     [SockConnect True, SockSend 0 None True, UpdateStats 1 0 0 0, Sleep,
      SockSend 0 None True, UpdateStats 1 0 0 0, Sleep, SockClose True]"
    by (simp add: sustained_client_worker_def)
  then show ?thesis
    by (simp only: sustained_worker_published sustained_queue_empty simp_thms)
qed

text \<open>
  In burst mode a failed test connection returns before any thread is started.
\<close>

lemma burst_probe_failure_starts_nothing:
  "run_load_test n m False envs sched = \<lparr>started = 0, final = initial_state\<rparr>"
  by (simp add: run_load_test_def)

lemma sustained_final_failed_connections:
  "failed_connections (final (run_sustained_load_test n envs sched)) =
     sum_list (map (\<lambda>t. sum_list (map ev_failed_conn t)) (launch_sustained n envs))"
  using execution_additive [of failed_connections ev_failed_conn sched
      "launch_sustained n envs" initial_state]
  by (simp add: run_sustained_load_test_def Let_def exec_event_counters initial_state_def)

text \<open>
  C4. \<open>run_sustained_load_test\<close> makes no test connection: it starts one worker per client
  whatever the state of the server. With a server that refuses every connection and three
  clients, three workers are started, each counts one failed connection, and nothing is
  sent.
\<close>

theorem sustained_run_starts_workers_unprobed:
  "started (run_sustained_load_test n envs sched) = nat n \<and>
   started (run_sustained_load_test 3
     (\<lambda>i. \<lparr>s_socket_ok = True, s_connect_ok = False, s_sends = [], s_close_ok = True\<rparr>)
     [2, 0, 0, 1]) = 3 \<and>
   failed_connections (final (run_sustained_load_test 3
     (\<lambda>i. \<lparr>s_socket_ok = True, s_connect_ok = False, s_sends = [], s_close_ok = True\<rparr>)
     [2, 0, 0, 1])) = 3 \<and>
   total_sent (final (run_sustained_load_test 3
     (\<lambda>i. \<lparr>s_socket_ok = True, s_connect_ok = False, s_sends = [], s_close_ok = True\<rparr>)
     [2, 0, 0, 1])) = 0"
proof -
  have started: "started (run_sustained_load_test k es ks) = nat k" for k es ks
    by (simp add: run_sustained_load_test_def Let_def launch_sustained_def)
  have refused: "launch_sustained 3
      (\<lambda>i. \<lparr>s_socket_ok = True, s_connect_ok = False, s_sends = [], s_close_ok = True\<rparr>) =
      [[SockConnect False, UpdateStats 0 0 1 0], [SockConnect False, UpdateStats 0 0 1 0],
       [SockConnect False, UpdateStats 0 0 1 0]]"
    by (simp add: launch_sustained_def sustained_client_worker_def upt_conv_Cons)
  have run: "final (run_sustained_load_test 3
      (\<lambda>i. \<lparr>s_socket_ok = True, s_connect_ok = False, s_sends = [], s_close_ok = True\<rparr>)
      [2, 0, 0, 1]) =
      \<lparr>total_sent = 0, total_received = 0, failed_connections = 3, failed_sends = 0,
       result_queue = []\<rparr>"
    by (simp add: run_sustained_load_test_def Let_def refused join_all_def update_stats_def
        initial_state_def)
  show ?thesis
    using started [of n envs sched] started [of 3 _ "[2, 0, 0, 1]"] run by simp
qed

section \<open>The lock and the progress line\<close>

lemma print_progress_locked:
  "renders_locked held (print_progress total_messages elapsed g @ rest) = renders_locked False rest"
  by (simp add: print_progress_def)

lemma print_progress_rendered:
  "rendered (print_progress total_messages elapsed g) =
     (if elapsed = 0 then [] else [progress_of total_messages elapsed g])"
  by (simp add: print_progress_def)

lemma monitor_progress_locked: "renders_locked False (monitor_progress total_messages polls)"
proof (induction polls)
  case Nil
  show ?case by simp
next
  case (Cons p polls)
  obtain elapsed g where p: "p = (elapsed, g)"
    by (cases p) auto
  have alone: "renders_locked False (print_progress total_messages elapsed g)"
    by (simp add: print_progress_def)
  show ?case
  proof (cases "elapsed = 0")
    case True
    then show ?thesis using alone by (simp add: p)
  next
    case False
    then show ?thesis using Cons.IH by (simp add: p print_progress_locked)
  qed
qed

text \<open>
  C7, as the claim states it, fails: the one print of \<open>print_progress\<close> happens between
  taking and releasing the lock.
\<close>

theorem print_progress_renders_under_lock:
  "\<not> renders_unlocked False (print_progress 10000 1 initial_state)"
  by (simp add: print_progress_def)

text \<open>
  C7, amended. \<open>print_progress\<close> holds \<open>stats_lock\<close> for the whole call: it takes the
  lock, reads the clock and the counters, prints the line and only then releases the
  lock. So every line the monitor prints is printed with the lock held, the lock is free
  again after each call, and the line shows the counters as they are while the lock is
  held: sent, received and the sum of the two failure counters of one and the same state.
\<close>

theorem print_progress_holds_lock:
  "renders_locked False (print_progress total_messages elapsed g) \<and>
   print_progress total_messages elapsed g =
     (if elapsed = 0 then [LockAcquire, LockRelease]
      else [LockAcquire, Render (progress_of total_messages elapsed g), LockRelease]) \<and>
   rendered (print_progress total_messages elapsed g) =
     (if elapsed = 0 then [] else [progress_of total_messages elapsed g]) \<and>
   shown_sent (progress_of total_messages elapsed g) = total_sent g \<and>
   shown_received (progress_of total_messages elapsed g) = total_received g \<and>
   shown_failed (progress_of total_messages elapsed g) = failed_connections g + failed_sends g \<and>
   renders_locked False (monitor_progress total_messages polls)"
proof -
  have "renders_locked False (print_progress total_messages elapsed g)"
    by (simp add: print_progress_def)
  moreover have "print_progress total_messages elapsed g =
     (if elapsed = 0 then [LockAcquire, LockRelease]
      else [LockAcquire, Render (progress_of total_messages elapsed g), LockRelease])"
    by (simp add: print_progress_def)
  moreover have "shown_sent (progress_of total_messages elapsed g) = total_sent g \<and>
     shown_received (progress_of total_messages elapsed g) = total_received g \<and>
     shown_failed (progress_of total_messages elapsed g) =
       failed_connections g + failed_sends g"
    by (simp add: progress_of_def)
  ultimately show ?thesis
    using print_progress_rendered [of total_messages elapsed g]
      monitor_progress_locked [of total_messages polls]
    by blast
qed

end
